theory Spec2Isabelle
  imports Main "HOL-Library.List_Lexorder" "HOL-Library.AList"
begin

section \<open>Strings\<close>

text \<open>
  A Python \<open>str\<close> is a sequence of Unicode code points; it is modelled as the list of
  these code points. The order on lists (the lexicographic order of
  \<open>HOL-Library.List_Lexorder\<close>) is the order Python's \<open>sorted\<close> uses on strings.
  \<open>ustr\<close> writes an ASCII literal.
\<close>

type_synonym str = "nat list"

definition ustr :: "string \<Rightarrow> str" where
  "ustr cs = map of_char cs"

text \<open>Python's \<open>str.isspace\<close> on one code point, and \<open>s.strip()\<close>.\<close>

definition isspace :: "nat \<Rightarrow> bool" where
  "isspace c \<longleftrightarrow>
     (9 \<le> c \<and> c \<le> 13) \<or> (28 \<le> c \<and> c \<le> 32) \<or> c = 133 \<or> c = 160 \<or> c = 5760 \<or>
     (8192 \<le> c \<and> c \<le> 8202) \<or> c = 8232 \<or> c = 8233 \<or> c = 8239 \<or> c = 8287 \<or> c = 12288"

definition strip :: "str \<Rightarrow> str" where
  "strip s = rev (dropWhile isspace (rev (dropWhile isspace s)))"

text \<open>
  \<open>s.lower()\<close>. The mapping is written out for Basic Latin and the Latin-1 Supplement
  (\<open>A\<close>-\<open>Z\<close>, and \<open>U+00C0\<close>-\<open>U+00DE\<close> without the multiplication sign), which hold every
  letter of the marker words of the scraper; other code points are left as they are.
\<close>

definition lower_cp :: "nat \<Rightarrow> nat" where
  "lower_cp c =
     (if (65 \<le> c \<and> c \<le> 90) \<or> (192 \<le> c \<and> c \<le> 222 \<and> c \<noteq> 215) then c + 32 else c)"

definition lower :: "str \<Rightarrow> str" where
  "lower s = map lower_cp s"

text \<open>\<open>s.startswith(p)\<close> and \<open>sub in s\<close>.\<close>

fun startswith :: "str \<Rightarrow> str \<Rightarrow> bool" where
  "startswith s [] = True"
| "startswith [] (p # ps) = False"
| "startswith (c # cs) (p # ps) = (c = p \<and> startswith cs ps)"

fun contains :: "str \<Rightarrow> str \<Rightarrow> bool" where
  "contains [] sub = (sub = [])"
| "contains (c # cs) sub = (startswith (c # cs) sub \<or> contains cs sub)"

text \<open>
  \<open>s.replace(old, new)\<close>: the occurrences of \<open>old\<close> are replaced from left to right,
  without overlap; an empty \<open>old\<close> matches before every character and at the end.
\<close>

function replace :: "str \<Rightarrow> str \<Rightarrow> str \<Rightarrow> str" where
  "replace s old new =
     (if old = [] then new @ concat (map (\<lambda>c. c # new) s)
      else if s = [] then []
      else if startswith s old then new @ replace (drop (length old) s) old new
      else hd s # replace (tl s) old new)"
  by pat_completeness auto
termination
  by (relation "measure (\<lambda>(s, old, new). length s)") (auto simp: neq_Nil_conv)

declare replace.simps [simp del]

text \<open>
  \<open>s.split(sep)\<close> and \<open>s.split(sep, maxsplit)\<close>: \<open>split_from m sep acc s\<close> cuts \<open>s\<close> at the
  occurrences of \<open>sep\<close>, at most \<open>m\<close> times when \<open>m\<close> is given; \<open>acc\<close> is the piece being
  read, reversed. Python raises \<open>ValueError\<close> on an empty separator.
\<close>

datatype exn = ValueError | UnboundLocalError | LibraryError

function split_from :: "nat option \<Rightarrow> str \<Rightarrow> str \<Rightarrow> str \<Rightarrow> str list" where
  "split_from m sep acc s =
     (if s = [] then [rev acc]
      else if m \<noteq> Some 0 \<and> sep \<noteq> [] \<and> startswith s sep
           then rev acc # split_from (map_option (\<lambda>k. k - 1) m) sep [] (drop (length sep) s)
           else split_from m sep (hd s # acc) (tl s))"
  by pat_completeness auto
termination
  by (relation "measure (\<lambda>(m, sep, acc, s). length s)") (auto simp: neq_Nil_conv)

declare split_from.simps [simp del]

definition split :: "str \<Rightarrow> str \<Rightarrow> nat option \<Rightarrow> exn + str list" where
  "split s sep maxsplit = (if sep = [] then Inl ValueError else Inr (split_from maxsplit sep [] s))"

text \<open>\<open>sep.join(xs)\<close>.\<close>

fun join :: "str \<Rightarrow> str list \<Rightarrow> str" where
  "join sep [] = []"
| "join sep [x] = x"
| "join sep (x # y # ys) = x @ sep @ join sep (y # ys)"

text \<open>\<open>list(dict.fromkeys(links))\<close>: the first occurrence of every element, in order.\<close>

fun fromkeys :: "'a list \<Rightarrow> 'a list" where
  "fromkeys [] = []"
| "fromkeys (x # xs) = x # fromkeys (filter (\<lambda>y. y \<noteq> x) xs)"

section \<open>Discovery of product URLs (vinilsul_scraper.py)\<close>

subsection \<open>The site and the parser, as the crawler sees them\<close>

text \<open>
  The calls that leave the program: \<open>fetch_html\<close> (an HTTP GET, \<open>None\<close> when
  \<open>requests\<close> raises \<open>RequestException\<close>), the constructor \<open>BeautifulSoup(html, "lxml")\<close>,
  \<open>Tag.select\<close>, \<open>Tag.select_one\<close>, \<open>Tag.get\<close> and \<open>urljoin\<close>. \<open>'e\<close> is the type of
  parse-tree elements. \<open>discover_product_urls\<close> calls them unguarded, so they are taken as
  total functions here.
\<close>

record 'e site =
  fetch_html :: "str \<Rightarrow> str option"
  BeautifulSoup :: "str \<Rightarrow> 'e"
  select :: "'e \<Rightarrow> str \<Rightarrow> 'e list"
  select_one :: "'e \<Rightarrow> str \<Rightarrow> 'e option"
  attr_get :: "'e \<Rightarrow> str \<Rightarrow> str option"
  urljoin :: "str \<Rightarrow> str \<Rightarrow> str"

definition absolute_url :: "'e site \<Rightarrow> str \<Rightarrow> str \<Rightarrow> str" where
  "absolute_url E base_url maybe_relative_url = urljoin E base_url maybe_relative_url"

subsection \<open>State of one discovery run\<close>

text \<open>
  The three local variables of \<open>discover_product_urls\<close>, and the trace of the two effects
  the claims speak about: a call of \<open>fetch_html\<close> on a listing URL, and a URL entering the
  queue (by \<open>deque(start_urls)\<close> or by \<open>queue.append\<close>).
\<close>

datatype event = Enqueue str | Fetch str

record crawl_state =
  queue :: "str list"
  visited_listing_pages :: "str set"
  product_urls :: "str set"
  trace :: "event list"

text \<open>Lines 96-101: the loop over the product anchors of one listing page.\<close>

fun collect_products :: "'e site \<Rightarrow> str \<Rightarrow> 'e list \<Rightarrow> str set \<Rightarrow> str set" where
  "collect_products E listing_url [] acc = acc"
| "collect_products E listing_url (a # as) acc =
     (case attr_get E a (ustr ''href'') of
        None \<Rightarrow> collect_products E listing_url as acc
      | Some href \<Rightarrow>
          if href = [] then collect_products E listing_url as acc
          else collect_products E listing_url as (insert (absolute_url E listing_url href) acc))"

text \<open>Lines 104-108: the absolute URL of the next listing page, when the page names one.\<close>

definition next_url_of :: "'e site \<Rightarrow> str \<Rightarrow> 'e \<Rightarrow> str option" where
  "next_url_of E listing_url soup =
     (case select_one E soup (ustr ''a.next.page-numbers'') of
        None \<Rightarrow> None
      | Some next_link \<Rightarrow>
          (case attr_get E next_link (ustr ''href'') of
             None \<Rightarrow> None
           | Some next_href \<Rightarrow>
               if next_href = [] then None
               else Some (absolute_url E listing_url next_href)))"

text \<open>Lines 83-110: one iteration of \<open>while queue\<close>.\<close>

definition loop_body :: "'e site \<Rightarrow> crawl_state \<Rightarrow> crawl_state" where
  "loop_body E s =
     (case queue s of
        [] \<Rightarrow> s
      | listing_url # rest \<Rightarrow>
          if listing_url \<in> visited_listing_pages s then s\<lparr>queue := rest\<rparr>
          else
            (let s1 = s\<lparr>queue := rest,
                        visited_listing_pages := insert listing_url (visited_listing_pages s),
                        trace := trace s @ [Fetch listing_url]\<rparr>
             in case fetch_html E listing_url of
                  None \<Rightarrow> s1
                | Some html \<Rightarrow>
                    (let soup = BeautifulSoup E html;
                         s2 = s1\<lparr>product_urls :=
                                   collect_products E listing_url
                                     (select E soup (ustr ''a.button.product_type_simple''))
                                     (product_urls s1)\<rparr>
                     in case next_url_of E listing_url soup of
                          None \<Rightarrow> s2
                        | Some next_url \<Rightarrow>
                            if next_url \<notin> visited_listing_pages s2
                            then s2\<lparr>queue := queue s2 @ [next_url],
                                    trace := trace s2 @ [Enqueue next_url]\<rparr>
                            else s2)))"

text \<open>
  Line 82: \<open>while queue\<close>. The loop runs for as long as the site keeps naming new pages, so
  it is a partial function: \<open>None\<close> is a run that never leaves the loop.
\<close>

partial_function (option) frontier_loop :: "'e site \<Rightarrow> crawl_state \<Rightarrow> crawl_state option" where
  "frontier_loop E s = (if queue s = [] then Some s else frontier_loop E (loop_body E s))"

definition init_state :: "str list \<Rightarrow> crawl_state" where
  "init_state start_urls =
     \<lparr>queue = start_urls, visited_listing_pages = {}, product_urls = {},
      trace = map Enqueue start_urls\<rparr>"

definition discover_run :: "'e site \<Rightarrow> str list \<Rightarrow> crawl_state option" where
  "discover_run E start_urls = frontier_loop E (init_state start_urls)"

text \<open>Line 112: \<open>return sorted(product_urls)\<close>.\<close>

definition discover_product_urls :: "'e site \<Rightarrow> str list \<Rightarrow> str list option" where
  "discover_product_urls E start_urls =
     map_option (\<lambda>s. sorted_list_of_set (product_urls s)) (discover_run E start_urls)"

subsection \<open>What a listing page contributes\<close>

definition page_products :: "'e site \<Rightarrow> str \<Rightarrow> str set" where
  "page_products E u =
     (case fetch_html E u of
        None \<Rightarrow> {}
      | Some html \<Rightarrow>
          collect_products E u
            (select E (BeautifulSoup E html) (ustr ''a.button.product_type_simple'')) {})"

definition page_next :: "'e site \<Rightarrow> str \<Rightarrow> str option" where
  "page_next E u =
     (case fetch_html E u of
        None \<Rightarrow> None
      | Some html \<Rightarrow> next_url_of E u (BeautifulSoup E html))"

inductive_set reachable :: "'e site \<Rightarrow> str list \<Rightarrow> str set" for E :: "'e site" and start_urls :: "str list" where
  start: "u \<in> set start_urls \<Longrightarrow> u \<in> reachable E start_urls"
| step: "u \<in> reachable E start_urls \<Longrightarrow> page_next E u = Some n \<Longrightarrow> n \<in> reachable E start_urls"

fun fetches :: "event list \<Rightarrow> str list" where
  "fetches [] = []"
| "fetches (Fetch u # es) = u # fetches es"
| "fetches (Enqueue u # es) = fetches es"

fun enqueues :: "event list \<Rightarrow> str list" where
  "enqueues [] = []"
| "enqueues (Enqueue u # es) = u # enqueues es"
| "enqueues (Fetch u # es) = enqueues es"

definition appended :: "'e site \<Rightarrow> str \<Rightarrow> str set \<Rightarrow> str list" where
  "appended E u vis =
     (case page_next E u of
        None \<Rightarrow> []
      | Some n \<Rightarrow> if n \<notin> insert u vis then [n] else [])"

text \<open>A trace in which no URL enters the queue after it has been fetched.\<close>

fun no_enqueue_after_fetch :: "event list \<Rightarrow> bool" where
  "no_enqueue_after_fetch [] = True"
| "no_enqueue_after_fetch (Fetch u # es) = (u \<notin> set (enqueues es) \<and> no_enqueue_after_fetch es)"
| "no_enqueue_after_fetch (Enqueue u # es) = no_enqueue_after_fetch es"

text \<open>The invariant of the frontier loop.\<close>

definition crawl_inv :: "'e site \<Rightarrow> str list \<Rightarrow> crawl_state \<Rightarrow> bool" where
  "crawl_inv E start_urls s \<longleftrightarrow>
     set (queue s) \<subseteq> reachable E start_urls \<and>
     visited_listing_pages s \<subseteq> reachable E start_urls \<and>
     set start_urls \<subseteq> visited_listing_pages s \<union> set (queue s) \<and>
     (\<forall>u n. u \<in> visited_listing_pages s \<longrightarrow> page_next E u = Some n \<longrightarrow>
            n \<in> visited_listing_pages s \<union> set (queue s)) \<and>
     product_urls s = (\<Union>u\<in>visited_listing_pages s. page_products E u) \<and>
     finite (visited_listing_pages s) \<and>
     distinct (fetches (trace s)) \<and>
     set (fetches (trace s)) = visited_listing_pages s \<and>
     no_enqueue_after_fetch (trace s)"

section \<open>The pagination loop of the CSV variant (vinilsul_scraper_csv_sku.py)\<close>

subsection \<open>The browser and the parser, as \<open>VinilSulScraper.run\<close> sees them\<close>

record Produto =
  nome :: str
  sku :: str
  categoria :: str
  marca :: str
  descricao :: str
  imagens :: str
  url :: str

text \<open>
  \<open>goto\<close> is \<open>page.goto(url, ...)\<close> followed by \<open>page.content()\<close>: the markup of the page, or
  \<open>None\<close> when \<open>page.goto\<close> raises \<open>PlaywrightTimeoutError\<close>. \<open>html_parser\<close> is
  \<open>BeautifulSoup(html, "html.parser")\<close>. \<open>extract_product\<close> stands for lines 221-227 (load
  the product page, \<open>_extract_product_details\<close>, \<open>_download_images\<close>), which run under
  \<open>try ... except Exception: continue\<close>: \<open>None\<close> is an exception there.
\<close>

record 'e browser =
  goto :: "str \<Rightarrow> str option"
  html_parser :: "str \<Rightarrow> 'e"
  soup_select :: "'e \<Rightarrow> str \<Rightarrow> 'e list"
  soup_select_one :: "'e \<Rightarrow> str \<Rightarrow> 'e option"
  anchor_get :: "'e \<Rightarrow> str \<Rightarrow> str option"
  extract_product :: "str \<Rightarrow> Produto option"

text \<open>Lines 59-62: the hrefs of the anchors that have a non-empty one.\<close>

fun anchor_hrefs :: "'e browser \<Rightarrow> 'e list \<Rightarrow> str list" where
  "anchor_hrefs B [] = []"
| "anchor_hrefs B (anchor # anchors) =
     (case anchor_get B anchor (ustr ''href'') of
        None \<Rightarrow> anchor_hrefs B anchors
      | Some href \<Rightarrow> if href = [] then anchor_hrefs B anchors else href # anchor_hrefs B anchors)"

text \<open>\<open>_parse_product_links\<close> (lines 56-69).\<close>

definition parse_product_links :: "'e browser \<Rightarrow> str \<Rightarrow> str list" where
  "parse_product_links B html =
     (let soup = html_parser B html;
          links = anchor_hrefs B (soup_select B soup
                    (ustr ''li.product a.woocommerce-LoopProduct-link, li.product a.woocommerce-loop-product__link''));
          links = (if links = []
                   then filter (\<lambda>href. contains href (ustr ''/produto/''))
                          (anchor_hrefs B (soup_select B soup (ustr ''li.product a'')))
                   else links)
      in fromkeys links)"

text \<open>\<open>_get_next_page\<close> (lines 71-76).\<close>

definition get_next_page :: "'e browser \<Rightarrow> str \<Rightarrow> str option" where
  "get_next_page B html =
     (let soup = html_parser B html
      in case soup_select_one B soup (ustr ''a.next, li.next a, a.page-numbers.next'') of
           None \<Rightarrow> None
         | Some next_link \<Rightarrow>
             (case anchor_get B next_link (ustr ''href'') of
                None \<Rightarrow> None
              | Some href \<Rightarrow> if href = [] then None else Some href))"

subsection \<open>State of \<open>run\<close>\<close>

text \<open>
  The local variables of \<open>run\<close>, and \<open>loaded\<close>: the listing pages on which line 203 has
  called \<open>page.goto\<close>, in order.
\<close>

record run_state =
  current_url :: str
  page_index :: nat
  seen_links :: "str set"
  produtos :: "Produto list"
  loaded :: "str list"

text \<open>Lines 215-230: the loop over the product links of one listing page.\<close>

fun visit_links :: "'e browser \<Rightarrow> str list \<Rightarrow> run_state \<Rightarrow> run_state" where
  "visit_links B [] s = s"
| "visit_links B (link # links) s =
     (if link \<in> seen_links s then visit_links B links s
      else
        (let s1 = s\<lparr>seen_links := insert link (seen_links s)\<rparr>
         in case extract_product B link of
              None \<Rightarrow> visit_links B links s1
            | Some produto \<Rightarrow> visit_links B links (s1\<lparr>produtos := produtos s1 @ [produto]\<rparr>)))"

text \<open>Lines 201-236: one iteration of \<open>while current_url\<close>, ending in \<open>break\<close> or not.\<close>

datatype 'a iteration = Break 'a | Continue 'a

definition run_iteration :: "'e browser \<Rightarrow> run_state \<Rightarrow> run_state iteration" where
  "run_iteration B s =
     (let s0 = s\<lparr>loaded := loaded s @ [current_url s]\<rparr>
      in case goto B (current_url s) of
           None \<Rightarrow> Break s0
         | Some html \<Rightarrow>
             (let product_links = parse_product_links B html
              in if product_links = [] then Break s0
                 else
                   (let s1 = visit_links B product_links s0
                    in case get_next_page B html of
                         None \<Rightarrow> Break s1
                       | Some next_url \<Rightarrow>
                           if next_url = [] \<or> next_url = current_url s then Break s1
                           else Continue (s1\<lparr>current_url := next_url,
                                             page_index := page_index s1 + 1\<rparr>))))"

text \<open>Line 200: \<open>while current_url\<close>; \<open>None\<close> is a run that never leaves the loop.\<close>

partial_function (option) run_loop :: "'e browser \<Rightarrow> run_state \<Rightarrow> run_state option" where
  "run_loop B s =
     (if current_url s = [] then Some s
      else case run_iteration B s of
             Break s' \<Rightarrow> Some s'
           | Continue s' \<Rightarrow> run_loop B s')"

text \<open>\<open>run\<close> (lines 186-240), up to the list handed to \<open>_write_csv\<close>.\<close>

definition run_init :: "str \<Rightarrow> run_state" where
  "run_init base_url =
     \<lparr>current_url = base_url, page_index = 1, seen_links = {}, produtos = [], loaded = []\<rparr>"

definition run :: "'e browser \<Rightarrow> str \<Rightarrow> run_state option" where
  "run B base_url = run_loop B (run_init base_url)"

section \<open>Extraction of product details (vinilsul_scraper.py)\<close>

subsection \<open>The parser library under \<open>try\<close>\<close>

text \<open>
  Every call of the parser library in \<open>scrape_product_details\<close> but the constructor on
  line 144 stands inside a \<open>try ... except Exception\<close> block. These calls are modelled as
  functions that return a value or raise: \<open>select_one\<close>, \<open>select\<close>,
  \<open>get_text(separator, strip=True)\<close>, \<open>find\<close>, \<open>find_next\<close> and \<open>decode_contents\<close>. Calling one
  of them twice on the same arguments gives the same outcome.

  The two calls outside the blocks can raise as well. \<open>fetch_html\<close> (line 132) catches
  \<open>requests.RequestException\<close> only and returns \<open>None\<close> then; any other exception of
  \<open>session.get\<close> leaves \<open>fetch_html\<close>. \<open>fetch_html_raises L url\<close> is that exception, when the
  call on \<open>url\<close> raises one, and \<open>fetch_html L url\<close> is what the call returns when it raises
  none. In the same way \<open>BeautifulSoup_raises L html\<close> is the exception the constructor
  \<open>BeautifulSoup(html, "lxml")\<close> raises on \<open>html\<close>, if any, and \<open>BeautifulSoup L html\<close> the
  tree it returns otherwise.
\<close>

record 'e library = "'e site" +
  fetch_html_raises :: "str \<Rightarrow> exn option"
  BeautifulSoup_raises :: "str \<Rightarrow> exn option"
  try_select_one :: "'e \<Rightarrow> str \<Rightarrow> exn + 'e option"
  try_select :: "'e \<Rightarrow> str \<Rightarrow> exn + 'e list"
  try_get_text :: "'e \<Rightarrow> str \<Rightarrow> exn + str"
  try_find :: "'e \<Rightarrow> str \<Rightarrow> exn + 'e option"
  try_find_next :: "'e \<Rightarrow> str \<Rightarrow> exn + 'e option"
  try_decode_contents :: "'e \<Rightarrow> exn + str"

text \<open>\<open>try: x = block except Exception: x = fallback\<close>.\<close>

definition except :: "exn + 'a \<Rightarrow> 'a \<Rightarrow> 'a" where
  "except block fallback = (case block of Inl e \<Rightarrow> fallback | Inr x \<Rightarrow> x)"

subsection \<open>The record of one product\<close>

text \<open>
  The dictionary returned by \<open>scrape_product_details\<close>. \<open>technical_info\<close> is a dictionary
  itself: an association list in insertion order, written by \<open>AList.update\<close>, which replaces
  the value of a key that is present and appends a new key.
\<close>

record product_details =
  url :: str
  title :: "str option"
  short_description :: "str option"
  categories :: "str list"
  tags :: "str list"
  advantages :: "str list"
  technical_info :: "(str \<times> str) list"

text \<open>Lines 134-142 (and 281-289): the record of a product whose page could not be read.\<close>

definition empty_details :: "str \<Rightarrow> product_details" where
  "empty_details product_url =
     \<lparr>url = product_url, title = None, short_description = None, categories = [], tags = [],
      advantages = [], technical_info = []\<rparr>"

subsection \<open>The blocks of \<open>scrape_product_details\<close>\<close>

text \<open>Lines 148-149 and 155-156: the text of the first element matching a selector.\<close>

definition text_block :: "'e library \<Rightarrow> 'e \<Rightarrow> str \<Rightarrow> str \<Rightarrow> exn + str option" where
  "text_block L soup selector separator =
     (case try_select_one L soup selector of
        Inl e \<Rightarrow> Inl e
      | Inr None \<Rightarrow> Inr None
      | Inr (Some el) \<Rightarrow>
          (case try_get_text L el separator of Inl e \<Rightarrow> Inl e | Inr t \<Rightarrow> Inr (Some t)))"

definition title_block :: "'e library \<Rightarrow> 'e \<Rightarrow> exn + str option" where
  "title_block L soup = text_block L soup (ustr ''h2.product_title.entry-title'') []"

definition short_description_block :: "'e library \<Rightarrow> 'e \<Rightarrow> exn + str option" where
  "short_description_block L soup =
     text_block L soup (ustr ''div.woocommerce-product-details__short-description'') (ustr '' '')"

text \<open>Lines 165-168 and 177-180: the loop over the anchors of a metadata span.\<close>

fun anchor_texts :: "'e library \<Rightarrow> 'e list \<Rightarrow> str list \<Rightarrow> exn + str list" where
  "anchor_texts L [] acc = Inr acc"
| "anchor_texts L (a # as) acc =
     (case try_get_text L a [] of
        Inl e \<Rightarrow> Inl e
      | Inr t \<Rightarrow>
          (let text = strip t
           in if text \<noteq> [] then anchor_texts L as (acc @ [text]) else anchor_texts L as acc))"

text \<open>Lines 163-168 and 175-180.\<close>

definition span_block :: "'e library \<Rightarrow> 'e \<Rightarrow> str \<Rightarrow> exn + str list" where
  "span_block L soup selector =
     (case try_select_one L soup selector of
        Inl e \<Rightarrow> Inl e
      | Inr None \<Rightarrow> Inr []
      | Inr (Some span) \<Rightarrow>
          (case try_select L span (ustr ''a'') of
             Inl e \<Rightarrow> Inl e
           | Inr anchors \<Rightarrow> anchor_texts L anchors []))"

definition categories_block :: "'e library \<Rightarrow> 'e \<Rightarrow> exn + str list" where
  "categories_block L soup = span_block L soup (ustr ''span.posted_in'')"

definition tags_block :: "'e library \<Rightarrow> 'e \<Rightarrow> exn + str list" where
  "tags_block L soup = span_block L soup (ustr ''span.tagged_as'')"

text \<open>Lines 192-196: the first \<open>h2\<close> whose text contains \<open>vantagens\<close>.\<close>

fun find_target_h2 :: "'e library \<Rightarrow> 'e list \<Rightarrow> exn + 'e option" where
  "find_target_h2 L [] = Inr None"
| "find_target_h2 L (h2 # h2_list) =
     (case try_get_text L h2 (ustr '' '') of
        Inl e \<Rightarrow> Inl e
      | Inr t \<Rightarrow>
          if contains (lower t) (ustr ''vantagens'') then Inr (Some h2)
          else find_target_h2 L h2_list)"

text \<open>Lines 202-205: the loop over the items of the list.\<close>

fun item_texts :: "'e library \<Rightarrow> 'e list \<Rightarrow> str list \<Rightarrow> exn + str list" where
  "item_texts L [] acc = Inr acc"
| "item_texts L (li # lis) acc =
     (case try_get_text L li (ustr '' '') of
        Inl e \<Rightarrow> Inl e
      | Inr txt \<Rightarrow>
          if txt \<noteq> [] then item_texts L lis (acc @ [txt]) else item_texts L lis acc)"

text \<open>Lines 190-205, with \<open>desc_tab\<close> found.\<close>

definition advantages_of_tab :: "'e library \<Rightarrow> 'e \<Rightarrow> exn + str list" where
  "advantages_of_tab L desc_tab =
     (case try_select L desc_tab (ustr ''h2'') of
        Inl e \<Rightarrow> Inl e
      | Inr h2_list \<Rightarrow>
          (case find_target_h2 L h2_list of
             Inl e \<Rightarrow> Inl e
           | Inr None \<Rightarrow> Inr []
           | Inr (Some target_h2) \<Rightarrow>
               (case try_find_next L target_h2 (ustr ''ul'') of
                  Inl e \<Rightarrow> Inl e
                | Inr None \<Rightarrow> Inr []
                | Inr (Some ul) \<Rightarrow>
                    (case try_select L ul (ustr ''li'') of
                       Inl e \<Rightarrow> Inl e
                     | Inr lis \<Rightarrow> item_texts L lis []))))"

text \<open>
  Lines 186-207. The block assigns the local variable \<open>desc_tab\<close>, which the next block
  reads: the result is the state of that variable after the block (unbound when
  \<open>select_one\<close> raised before the assignment) and the outcome of the block.
\<close>

datatype 'e variable = Unbound | Bound "'e option"

definition advantages_block :: "'e library \<Rightarrow> 'e \<Rightarrow> 'e variable \<times> (exn + str list)" where
  "advantages_block L soup =
     (case try_select_one L soup (ustr ''div#tab-description'') of
        Inl e \<Rightarrow> (Unbound, Inl e)
      | Inr None \<Rightarrow> (Bound None, Inr [])
      | Inr (Some desc_tab) \<Rightarrow> (Bound (Some desc_tab), advantages_of_tab L desc_tab))"

text \<open>The marker of line 220 and 239: \<open>informa\<ccedil>\<otilde>es t\<eacute>cnicas\<close>.\<close>

definition informacoes_tecnicas :: str where
  "informacoes_tecnicas = ustr ''informa'' @ [231, 245] @ ustr ''es t'' @ [233] @ ustr ''cnicas''"

text \<open>Lines 216-222: the first \<open>p\<close> with a \<open>strong\<close> whose text contains the marker.\<close>

fun find_target_p :: "'e library \<Rightarrow> 'e list \<Rightarrow> exn + 'e option" where
  "find_target_p L [] = Inr None"
| "find_target_p L (p # p_list) =
     (case try_find L p (ustr ''strong'') of
        Inl e \<Rightarrow> Inl e
      | Inr None \<Rightarrow> find_target_p L p_list
      | Inr (Some strong) \<Rightarrow>
          (case try_get_text L strong (ustr '' '') of
             Inl e \<Rightarrow> Inl e
           | Inr strong_text \<Rightarrow>
               if contains (lower strong_text) informacoes_tecnicas then Inr (Some p)
               else find_target_p L p_list))"

text \<open>
  Lines 231-246: the loop over the segments. \<open>key, value = part_text.split(":", 1)\<close> raises
  \<open>ValueError\<close> unless the split gives two pieces. The expression
  \<open>BeautifulSoup(part, "lxml").get_text(" ", strip=True)\<close> of line 235 stands inside the
  block, so an exception of its constructor is caught like one of \<open>get_text\<close>:
  \<open>try_get_text L (BeautifulSoup L part) sep\<close> is the outcome of the whole expression, \<open>Inl\<close>
  when either call raises. \<open>BeautifulSoup_raises\<close> concerns the constructor of line 144 alone.
\<close>

fun parse_parts :: "'e library \<Rightarrow> str list \<Rightarrow> (str \<times> str) list \<Rightarrow> exn + (str \<times> str) list" where
  "parse_parts L [] info = Inr info"
| "parse_parts L (part # parts) info =
     (if part = [] then parse_parts L parts info
      else
        (case try_get_text L (BeautifulSoup L part) (ustr '' '') of
           Inl e \<Rightarrow> Inl e
         | Inr part_text \<Rightarrow>
             if part_text = [] then parse_parts L parts info
             else if startswith (lower part_text) informacoes_tecnicas
               then parse_parts L parts info
             else if contains part_text (ustr '':'') then
               (case split part_text (ustr '':'') (Some 1) of
                  Inl e \<Rightarrow> Inl e
                | Inr [key, value] \<Rightarrow>
                    (let key = strip key; value = strip value
                     in if key \<noteq> [] then parse_parts L parts (AList.update key value info)
                        else parse_parts L parts info)
                | Inr pieces \<Rightarrow> Inl ValueError)
             else parse_parts L parts info))"

text \<open>Lines 214-246, with \<open>desc_tab\<close> found.\<close>

definition technical_info_of_tab :: "'e library \<Rightarrow> 'e \<Rightarrow> exn + (str \<times> str) list" where
  "technical_info_of_tab L desc_tab =
     (case try_select L desc_tab (ustr ''p'') of
        Inl e \<Rightarrow> Inl e
      | Inr p_list \<Rightarrow>
          (case find_target_p L p_list of
             Inl e \<Rightarrow> Inl e
           | Inr None \<Rightarrow> Inr []
           | Inr (Some target_p) \<Rightarrow>
               (case try_decode_contents L target_p of
                  Inl e \<Rightarrow> Inl e
                | Inr raw_html \<Rightarrow>
                    (let normalized = replace (replace raw_html (ustr ''<br/>'') (ustr ''<br>''))
                                        (ustr ''<br />'') (ustr ''<br>'')
                     in case split normalized (ustr ''<br>'') None of
                          Inl e \<Rightarrow> Inl e
                        | Inr pieces \<Rightarrow> parse_parts L (map strip pieces) []))))"

text \<open>
  Lines 211-248. Line 212 is \<open>desc_tab = desc_tab or soup.select_one(...)\<close>: reading
  \<open>desc_tab\<close> raises \<open>UnboundLocalError\<close> when the block before did not assign it; an
  element is true, so the selector is evaluated again only when \<open>desc_tab\<close> is \<open>None\<close>.
\<close>

definition technical_info_block :: "'e library \<Rightarrow> 'e \<Rightarrow> 'e variable \<Rightarrow> exn + (str \<times> str) list" where
  "technical_info_block L soup desc_tab =
     (case desc_tab of
        Unbound \<Rightarrow> Inl UnboundLocalError
      | Bound (Some tab) \<Rightarrow> technical_info_of_tab L tab
      | Bound None \<Rightarrow>
          (case try_select_one L soup (ustr ''div#tab-description'') of
             Inl e \<Rightarrow> Inl e
           | Inr None \<Rightarrow> Inr []
           | Inr (Some tab) \<Rightarrow> technical_info_of_tab L tab))"

text \<open>The same extraction on its own, with a \<open>desc_tab\<close> of its own.\<close>

definition technical_info_alone :: "'e library \<Rightarrow> 'e \<Rightarrow> exn + (str \<times> str) list" where
  "technical_info_alone L soup =
     (case try_select_one L soup (ustr ''div#tab-description'') of
        Inl e \<Rightarrow> Inl e
      | Inr None \<Rightarrow> Inr []
      | Inr (Some tab) \<Rightarrow> technical_info_of_tab L tab)"

subsection \<open>\<open>scrape_product_details\<close> and \<open>main\<close>\<close>

text \<open>
  Lines 131-258. An exception of \<open>fetch_html\<close> (line 132) or of the constructor (line 144)
  is not caught here: it reaches the caller.
\<close>

definition scrape_product_details :: "'e library \<Rightarrow> str \<Rightarrow> exn + product_details" where
  "scrape_product_details L product_url =
     (case fetch_html_raises L product_url of
        Some e \<Rightarrow> Inl e
      | None \<Rightarrow>
          (case fetch_html L product_url of
             None \<Rightarrow> Inr (empty_details product_url)
           | Some html \<Rightarrow>
               (case BeautifulSoup_raises L html of
                  Some e \<Rightarrow> Inl e
                | None \<Rightarrow>
                    (let soup = BeautifulSoup L html;
                         title = except (title_block L soup) None;
                         short_description = except (short_description_block L soup) None;
                         categories = except (categories_block L soup) [];
                         tags = except (tags_block L soup) [];
                         (desc_tab, block) = advantages_block L soup;
                         advantages = except block [];
                         technical_info = except (technical_info_block L soup desc_tab) []
                     in Inr \<lparr>url = product_url, title = title,
                              short_description = short_description, categories = categories,
                              tags = tags, advantages = advantages,
                              technical_info = technical_info\<rparr>))))"

text \<open>
  Lines 272-289: the loop of \<open>main\<close> over the product URLs, with its \<open>try ... except
  Exception\<close> around the call of \<open>scrape_product_details\<close>.
\<close>

fun scrape_all :: "'e library \<Rightarrow> str list \<Rightarrow> product_details list \<Rightarrow> product_details list" where
  "scrape_all L [] results = results"
| "scrape_all L (product_url # urls) results =
     (case scrape_product_details L product_url of
        Inr details \<Rightarrow> scrape_all L urls (results @ [details])
      | Inl e \<Rightarrow> scrape_all L urls (results @ [empty_details product_url]))"

text \<open>Lines 16-18: the module constant \<open>start_urls\<close>.\<close>

definition suprimentos :: str where
  "suprimentos = ustr ''https://www.vinilsul.com.br/categoria-produto/suprimentos/''"

definition configured_start_urls :: "str list" where
  "configured_start_urls = [suprimentos]"

text \<open>\<open>main\<close> (lines 265-294), up to the list handed to \<open>json.dump\<close>.\<close>

definition main :: "'e library \<Rightarrow> product_details list option" where
  "main L =
     (case discover_product_urls (site.truncate L) configured_start_urls of
        None \<Rightarrow> None
      | Some urls \<Rightarrow> Some (scrape_all L urls []))"

text \<open>A dictionary whose keys are non-empty and have no blank at either end.\<close>

definition clean_keys :: "(str \<times> str) list \<Rightarrow> bool" where
  "clean_keys info \<longleftrightarrow> list_all (\<lambda>k. k \<noteq> [] \<and> strip k = k) (map fst info)"

section \<open>Concrete sites\<close>

subsection \<open>Listing pages for \<open>discover_product_urls\<close>\<close>

text \<open>
  A listing page is given by what the two selectors find on it: the \<open>href\<close> attributes of
  its product anchors, in document order (\<open>None\<close> for an anchor without the attribute), and
  its next-page anchor, if it has one. The markup of a page is named by the URL it is served
  at, all links are absolute, and \<open>urljoin\<close> returns an absolute link unchanged.
\<close>

datatype listing = Listing "str option list" "str option option"

datatype listing_element = Page listing | Anchor "str option"

definition listing_site :: "(str \<Rightarrow> listing option) \<Rightarrow> listing_element site" where
  "listing_site pages =
     \<lparr>fetch_html = (\<lambda>u. case pages u of None \<Rightarrow> None | Some l \<Rightarrow> Some u),
      BeautifulSoup = (\<lambda>html. case pages html of None \<Rightarrow> Page (Listing [] None) | Some l \<Rightarrow> Page l),
      select = (\<lambda>e sel. case e of
                  Page (Listing ps n) \<Rightarrow>
                    if sel = ustr ''a.button.product_type_simple'' then map Anchor ps else []
                | Anchor h \<Rightarrow> []),
      select_one = (\<lambda>e sel. case e of
                  Page (Listing ps n) \<Rightarrow>
                    if sel = ustr ''a.next.page-numbers'' then map_option Anchor n else None
                | Anchor h \<Rightarrow> None),
      attr_get = (\<lambda>e key. case e of
                  Page l \<Rightarrow> None
                | Anchor h \<Rightarrow> if key = ustr ''href'' then h else None),
      urljoin = (\<lambda>base rel. rel)\<rparr>"

text \<open>
  Two listing pages: \<open>/1\<close> with the products \<open>/b\<close> and \<open>/a\<close> and a next link to \<open>/2\<close>;
  \<open>/2\<close> with the products \<open>/c\<close> and again \<open>/a\<close>, and no next link.
\<close>

definition two_pages :: "str \<Rightarrow> listing option" where
  "two_pages u =
     (if u = ustr ''/1'' then Some (Listing [Some (ustr ''/b''), Some (ustr ''/a'')] (Some (Some (ustr ''/2''))))
      else if u = ustr ''/2'' then Some (Listing [Some (ustr ''/c''), Some (ustr ''/a'')] None)
      else None)"

text \<open>A pagination cycle: \<open>/1\<close> links to \<open>/2\<close>, and \<open>/2\<close> back to \<open>/1\<close>.\<close>

definition cycle_pages :: "str \<Rightarrow> listing option" where
  "cycle_pages u =
     (if u = ustr ''/1'' then Some (Listing [Some (ustr ''/a'')] (Some (Some (ustr ''/2''))))
      else if u = ustr ''/2'' then Some (Listing [Some (ustr ''/b'')] (Some (Some (ustr ''/1''))))
      else None)"

text \<open>Two start pages \<open>/1\<close> and \<open>/2\<close> whose next links both lead to \<open>/3\<close>.\<close>

definition merging_pages :: "str \<Rightarrow> listing option" where
  "merging_pages u =
     (if u = ustr ''/1'' \<or> u = ustr ''/2'' then Some (Listing [] (Some (Some (ustr ''/3''))))
      else if u = ustr ''/3'' then Some (Listing [Some (ustr ''/a'')] None)
      else None)"

subsection \<open>Catalogue pages for \<open>VinilSulScraper.run\<close>\<close>

text \<open>
  A catalogue page is given by the \<open>href\<close> attributes found by the primary selector of
  \<open>_parse_product_links\<close>, those found by its fallback selector \<open>li.product a\<close>, and the
  next-page anchor. Product pages always load, and the record extracted from one carries its
  link as name and URL.
\<close>

datatype catalogue = Catalogue "str option list" "str option list" "str option option"

datatype catalogue_element = Shelf catalogue | Link "str option"

definition catalogue_browser :: "(str \<Rightarrow> catalogue option) \<Rightarrow> catalogue_element browser" where
  "catalogue_browser pages =
     \<lparr>goto = (\<lambda>u. case pages u of None \<Rightarrow> None | Some c \<Rightarrow> Some u),
      html_parser = (\<lambda>html. case pages html of None \<Rightarrow> Shelf (Catalogue [] [] None) | Some c \<Rightarrow> Shelf c),
      soup_select = (\<lambda>e sel. case e of
                  Shelf (Catalogue ps qs n) \<Rightarrow>
                    if sel = ustr ''li.product a.woocommerce-LoopProduct-link, li.product a.woocommerce-loop-product__link''
                    then map Link ps
                    else if sel = ustr ''li.product a'' then map Link qs else []
                | Link h \<Rightarrow> []),
      soup_select_one = (\<lambda>e sel. case e of
                  Shelf (Catalogue ps qs n) \<Rightarrow>
                    if sel = ustr ''a.next, li.next a, a.page-numbers.next'' then map_option Link n else None
                | Link h \<Rightarrow> None),
      anchor_get = (\<lambda>e key. case e of
                  Shelf c \<Rightarrow> None
                | Link h \<Rightarrow> if key = ustr ''href'' then h else None),
      extract_product = (\<lambda>link. Some \<lparr>nome = link, sku = [], categoria = [], marca = [],
                                        descricao = [], imagens = [], url = link\<rparr>)\<rparr>"

text \<open>A pagination cycle of two catalogue pages, each with one product.\<close>

definition catalogue_cycle :: "str \<Rightarrow> catalogue option" where
  "catalogue_cycle u =
     (if u = ustr ''/1'' then Some (Catalogue [Some (ustr ''/a'')] [Some (ustr ''/a'')] (Some (Some (ustr ''/2''))))
      else if u = ustr ''/2'' then Some (Catalogue [Some (ustr ''/b'')] [Some (ustr ''/b'')] (Some (Some (ustr ''/1''))))
      else None)"

text \<open>
  A landing page \<open>/1\<close> without product links whose next link leads to \<open>/2\<close>, a page with
  one product.
\<close>

definition catalogue_landing :: "str \<Rightarrow> catalogue option" where
  "catalogue_landing u =
     (if u = ustr ''/1'' then Some (Catalogue [] [] (Some (Some (ustr ''/2''))))
      else if u = ustr ''/2'' then Some (Catalogue [Some (ustr ''/a'')] [Some (ustr ''/a'')] None)
      else None)"

subsection \<open>A shop with one category page and two products\<close>

text \<open>
  The technical-information paragraph of the example. Its bold lead-in is written
  \<open><strong>Informa\<ccedil>\<otilde>es T\<eacute>cnicas:</strong>\<close> by \<open>decode_contents\<close>, and has the text
  \<open>Informa\<ccedil>\<otilde>es T\<eacute>cnicas:\<close>.
\<close>

definition title_line :: str where
  "title_line = ustr ''Informa'' @ [231, 245] @ ustr ''es T'' @ [233] @ ustr ''cnicas:''"

definition lead_in_markup :: str where
  "lead_in_markup = ustr ''<strong>'' @ title_line @ ustr ''</strong>''"

text \<open>
  The inner markup of the paragraph, with every line break written as \<open>br\<close>:
  the lead-in, a blank, and the three lines \<open>Cor: Azul\<close>, \<open>Tamanho: M\<close> and
  \<open>Cor: Vermelho\<close>, each behind a line break. \<open>decode_contents\<close> writes a line break as
  \<open><br/>\<close>.
\<close>

definition paragraph_with_breaks :: "str \<Rightarrow> str" where
  "paragraph_with_breaks br =
     lead_in_markup @ ustr '' '' @ br @ ustr ''Cor: Azul'' @ br @ ustr ''Tamanho: M'' @ br @
     ustr ''Cor: Vermelho''"

definition technical_paragraph :: str where
  "technical_paragraph = paragraph_with_breaks (ustr ''<br/>'')"

text \<open>
  The text of a fragment of markup without nested structure: the character data between the
  tags, each run stripped, the empty ones dropped, joined by the separator.
\<close>

fun fragment_texts :: "bool \<Rightarrow> str \<Rightarrow> str \<Rightarrow> str list" where
  "fragment_texts in_tag acc [] = [rev acc]"
| "fragment_texts in_tag acc (c # cs) =
     (if in_tag then (if c = 62 then fragment_texts False [] cs else fragment_texts True [] cs)
      else if c = 60 then rev acc # fragment_texts True [] cs
      else fragment_texts False (c # acc) cs)"

definition fragment_text :: "str \<Rightarrow> str \<Rightarrow> str" where
  "fragment_text s sep = join sep (filter (\<lambda>t. t \<noteq> []) (map strip (fragment_texts False [] s)))"

text \<open>
  The category page of \<open>start_urls\<close> links to the products \<open>/p\<close> and \<open>/down\<close>. The page of
  \<open>/down\<close> cannot be fetched. Markup is named by the URL it is served at; any other string is
  a fragment of markup, with the text \<open>fragment_text\<close> gives. The page of \<open>/p\<close> has a title,
  one category anchor with text and one without, no short description and no tags; its
  description tab holds the headings \<open>Sobre\<close> and \<open>VANTAGENS\<close>, a list with the items \<open>A\<close>
  and \<open>B\<close> after the second heading, and the paragraph above behind a bold lead-in. The
  description tab of \<open>/q\<close> holds the heading \<open>Vantagens\<close> with no list after it, that of
  \<open>/r\<close> the heading \<open>Sobre\<close> only. \<open>select_one\<close> raises on the selectors in \<open>raising\<close>.
  \<open>fetch_html\<close> raises on the URL \<open>http://a..b.invalid/\<close>, whose host name has an empty
  label, and the constructor raises on the markup of \<open>/broken\<close>.
\<close>

datatype shop_element =
    Soup str | Product_Link str
  | Product_Title | Posted_In | Category_Link str | Description_Tab str
  | Heading str | Item_List | Item str | Paragraph | Lead_In

definition shop :: "str list \<Rightarrow> shop_element library" where
  "shop raising =
     \<lparr>fetch_html = (\<lambda>u. if u = ustr ''/down'' then None else Some u),
      BeautifulSoup = Soup,
      select = (\<lambda>e sel.
         if e = Soup suprimentos \<and> sel = ustr ''a.button.product_type_simple''
         then [Product_Link (ustr ''/p''), Product_Link (ustr ''/down'')] else []),
      select_one = (\<lambda>e sel. None),
      attr_get = (\<lambda>e key. case e of
           Product_Link h \<Rightarrow> if key = ustr ''href'' then Some h else None
         | _ \<Rightarrow> None),
      urljoin = (\<lambda>base rel. rel),
      fetch_html_raises = (\<lambda>u. if u = ustr ''http://a..b.invalid/'' then Some LibraryError else None),
      BeautifulSoup_raises = (\<lambda>html. if html = ustr ''/broken'' then Some LibraryError else None),
      try_select_one = (\<lambda>e sel.
         if sel \<in> set raising then Inl LibraryError
         else if e = Soup (ustr ''/p'') \<and> sel = ustr ''h2.product_title.entry-title''
           then Inr (Some Product_Title)
         else if e = Soup (ustr ''/p'') \<and> sel = ustr ''span.posted_in'' then Inr (Some Posted_In)
         else if e \<in> {Soup (ustr ''/p''), Soup (ustr ''/q''), Soup (ustr ''/r'')} \<and>
                 sel = ustr ''div#tab-description''
           then (case e of Soup u \<Rightarrow> Inr (Some (Description_Tab u)) | _ \<Rightarrow> Inr None)
         else Inr None),
      try_select = (\<lambda>e sel.
         if e = Posted_In \<and> sel = ustr ''a''
           then Inr [Category_Link (ustr ''Vinil''), Category_Link (ustr '' '')]
         else if e = Description_Tab (ustr ''/p'') \<and> sel = ustr ''h2''
           then Inr [Heading (ustr ''Sobre''), Heading (ustr ''VANTAGENS'')]
         else if e = Description_Tab (ustr ''/q'') \<and> sel = ustr ''h2''
           then Inr [Heading (ustr ''Vantagens'')]
         else if e = Description_Tab (ustr ''/r'') \<and> sel = ustr ''h2''
           then Inr [Heading (ustr ''Sobre'')]
         else if e = Description_Tab (ustr ''/p'') \<and> sel = ustr ''p'' then Inr [Paragraph]
         else if e = Item_List \<and> sel = ustr ''li'' then Inr [Item (ustr ''A''), Item (ustr ''B'')]
         else Inr []),
      try_get_text = (\<lambda>e sep. case e of
           Soup s \<Rightarrow> Inr (fragment_text s sep)
         | Product_Title \<Rightarrow> Inr (ustr ''Vinil Azul'')
         | Category_Link t \<Rightarrow> Inr (strip t)
         | Heading t \<Rightarrow> Inr t
         | Item t \<Rightarrow> Inr t
         | Lead_In \<Rightarrow> Inr title_line
         | _ \<Rightarrow> Inr []),
      try_find = (\<lambda>e name.
         if e = Paragraph \<and> name = ustr ''strong'' then Inr (Some Lead_In) else Inr None),
      try_find_next = (\<lambda>e name.
         if e = Heading (ustr ''VANTAGENS'') \<and> name = ustr ''ul'' then Inr (Some Item_List)
         else Inr None),
      try_decode_contents = (\<lambda>e. if e = Paragraph then Inr technical_paragraph else Inr [])\<rparr>"

subsection \<open>Lemmas on the loop body\<close>

lemma collect_products_acc:
  "collect_products E u as acc = acc \<union> collect_products E u as {}"
proof (induction as arbitrary: acc)
  case Nil
  show ?case by simp
next
  case (Cons a as)
  have ins: "collect_products E u as (insert x acc) = insert x acc \<union> collect_products E u as {}" for x
    by (rule Cons.IH)
  have one: "collect_products E u as {x} = {x} \<union> collect_products E u as {}" for x
    by (rule Cons.IH)
  show ?case
    by (simp add: ins one Cons.IH[of acc] split: option.split)
qed

lemma finite_collect_products: "finite acc \<Longrightarrow> finite (collect_products E u as acc)"
  by (induction as arbitrary: acc) (auto split: option.split)

lemma finite_page_products: "finite (page_products E u)"
  by (simp add: page_products_def finite_collect_products split: option.split)

lemma fetches_append: "fetches (xs @ ys) = fetches xs @ fetches ys"
  by (induction xs rule: fetches.induct) auto

lemma enqueues_append: "enqueues (xs @ ys) = enqueues xs @ enqueues ys"
  by (induction xs rule: enqueues.induct) auto

lemma loop_body_skip:
  assumes "queue s = u # rest" "u \<in> visited_listing_pages s"
  shows "loop_body E s = s\<lparr>queue := rest\<rparr>"
  using assms by (simp add: loop_body_def)

lemma loop_body_visit:
  assumes "queue s = u # rest" "u \<notin> visited_listing_pages s"
  shows "loop_body E s =
           s\<lparr>queue := rest @ appended E u (visited_listing_pages s),
             visited_listing_pages := insert u (visited_listing_pages s),
             product_urls := product_urls s \<union> page_products E u,
             trace := trace s @ [Fetch u] @ map Enqueue (appended E u (visited_listing_pages s))\<rparr>"
proof (cases "fetch_html E u")
  case None
  then show ?thesis using assms
    by (simp add: loop_body_def appended_def page_next_def page_products_def)
next
  case (Some html)
  have acc: "collect_products E u xs (product_urls s) = product_urls s \<union> collect_products E u xs {}" for xs
    by (rule collect_products_acc)
  show ?thesis using assms Some
    by (auto simp: loop_body_def appended_def page_next_def page_products_def Let_def acc
             split: option.split)
qed

subsection \<open>The loop: invariants and termination\<close>

lemma frontier_loop_rule:
  assumes run: "frontier_loop E s = Some r"
      and init: "I s"
      and pres: "\<And>t. I t \<Longrightarrow> queue t \<noteq> [] \<Longrightarrow> I (loop_body E t)"
  shows "I r \<and> queue r = []"
proof -
  let ?P = "\<lambda>E s r. (\<forall>t. I t \<longrightarrow> queue t \<noteq> [] \<longrightarrow> I (loop_body E t)) \<longrightarrow> I s \<longrightarrow> I r \<and> queue r = []"
  have "?P E s r"
  proof (rule frontier_loop.raw_induct[where P = ?P, OF _ run])
    fix loop :: "'a site \<Rightarrow> crawl_state \<Rightarrow> crawl_state option" and E s r
    assume IH: "\<And>E s r. loop E s = Some r \<Longrightarrow> ?P E s r"
       and eq: "(if queue s = [] then Some s else loop E (loop_body E s)) = Some r"
    show "?P E s r"
    proof (intro impI)
      assume pres: "\<forall>t. I t \<longrightarrow> queue t \<noteq> [] \<longrightarrow> I (loop_body E t)" and init: "I s"
      show "I r \<and> queue r = []"
      proof (cases "queue s = []")
        case True
        with eq init show ?thesis by simp
      next
        case False
        with eq have run: "loop E (loop_body E s) = Some r" by simp
        from pres init False have "I (loop_body E s)" by simp
        with IH[OF run] pres show ?thesis by simp
      qed
    qed
  qed
  with init pres show ?thesis by simp
qed

lemma frontier_loop_terminates:
  assumes fin: "finite R"
      and closed: "\<And>u n. u \<in> R \<Longrightarrow> page_next E u = Some n \<Longrightarrow> n \<in> R"
  shows "set (queue s) \<subseteq> R \<Longrightarrow> \<exists>r. frontier_loop E s = Some r"
proof (induction "2 * card (R - visited_listing_pages s) + length (queue s)" arbitrary: s
       rule: less_induct)
  case less
  show ?case
  proof (cases "queue s")
    case Nil
    then show ?thesis by (simp add: frontier_loop.simps)
  next
    case (Cons u rest)
    have unfold: "frontier_loop E s = frontier_loop E (loop_body E s)"
      using Cons by (subst frontier_loop.simps) simp
    have uR: "u \<in> R" and restR: "set rest \<subseteq> R" using less.prems Cons by auto
    show ?thesis
    proof (cases "u \<in> visited_listing_pages s")
      case True
      have body: "loop_body E s = s\<lparr>queue := rest\<rparr>" by (rule loop_body_skip[OF Cons True])
      have "\<exists>r. frontier_loop E (loop_body E s) = Some r"
        by (rule less.hyps) (use body Cons restR in simp_all)
      with unfold show ?thesis by simp
    next
      case False
      note body = loop_body_visit[OF Cons False, of E]
      have app: "set (appended E u (visited_listing_pages s)) \<subseteq> R"
        using closed[OF uR] by (auto simp: appended_def split: option.splits if_splits)
      have "R - insert u (visited_listing_pages s) \<subset> R - visited_listing_pages s"
        using uR False by auto
      then have dec: "card (R - insert u (visited_listing_pages s)) < card (R - visited_listing_pages s)"
        using fin by (intro psubset_card_mono) auto
      have len: "length (appended E u (visited_listing_pages s)) \<le> 1"
        by (simp add: appended_def split: option.split)
      have "\<exists>r. frontier_loop E (loop_body E s) = Some r"
      proof (rule less.hyps)
        show "2 * card (R - visited_listing_pages (loop_body E s)) + length (queue (loop_body E s))
              < 2 * card (R - visited_listing_pages s) + length (queue s)"
          using dec len by (simp add: body Cons)
        show "set (queue (loop_body E s)) \<subseteq> R"
          using restR app by (simp add: body)
      qed
      with unfold show ?thesis by simp
    qed
  qed
qed

lemma fetches_map_Enqueue: "fetches (map Enqueue xs) = []"
  by (induction xs) auto

lemma enqueues_map_Enqueue: "enqueues (map Enqueue xs) = xs"
  by (induction xs) auto

lemma no_enqueue_after_fetch_append:
  "no_enqueue_after_fetch (xs @ ys) \<longleftrightarrow>
     no_enqueue_after_fetch xs \<and> no_enqueue_after_fetch ys \<and> set (fetches xs) \<inter> set (enqueues ys) = {}"
  by (induction xs rule: no_enqueue_after_fetch.induct) (auto simp: enqueues_append)

lemma no_enqueue_after_fetch_map_Enqueue: "no_enqueue_after_fetch (map Enqueue xs)"
  by (induction xs) auto

lemma set_appended:
  "set (appended E u vis) = {n. page_next E u = Some n \<and> n \<noteq> u \<and> n \<notin> vis}"
  by (auto simp: appended_def split: option.splits)

lemma crawl_inv_init: "crawl_inv E start_urls (init_state start_urls)"
  by (auto simp: crawl_inv_def init_state_def fetches_map_Enqueue
        no_enqueue_after_fetch_map_Enqueue intro: reachable.start)

lemma crawl_inv_loop_body:
  assumes inv: "crawl_inv E start_urls s" and ne: "queue s \<noteq> []"
  shows "crawl_inv E start_urls (loop_body E s)"
proof -
  from ne obtain u rest where q: "queue s = u # rest" by (cases "queue s") auto
  show ?thesis
  proof (cases "u \<in> visited_listing_pages s")
    case True
    show ?thesis
      using inv q True unfolding loop_body_skip[OF q True] crawl_inv_def
      by auto
  next
    case False
    have uR: "u \<in> reachable E start_urls" using inv q by (auto simp: crawl_inv_def)
    have nR: "page_next E u = Some n \<Longrightarrow> n \<in> reachable E start_urls" for n
      using uR by (rule reachable.step)
    show ?thesis
      using inv q False nR unfolding loop_body_visit[OF q False] crawl_inv_def
      by (auto simp: set_appended fetches_append enqueues_append fetches_map_Enqueue
            enqueues_map_Enqueue no_enqueue_after_fetch_append no_enqueue_after_fetch_map_Enqueue)
  qed
qed

lemma loop_body_empty: "queue s = [] \<Longrightarrow> loop_body E s = s"
  by (simp add: loop_body_def)

lemma crawl_inv_iterate: "crawl_inv E start_urls ((loop_body E ^^ n) (init_state start_urls))"
proof (induction n)
  case 0
  show ?case by (simp add: crawl_inv_init)
next
  case (Suc n)
  show ?case
  proof (cases "queue ((loop_body E ^^ n) (init_state start_urls)) = []")
    case True
    with Suc show ?thesis by (simp add: loop_body_empty)
  next
    case False
    with Suc show ?thesis by (simp add: crawl_inv_loop_body)
  qed
qed

lemma discover_run_final:
  assumes "discover_run E start_urls = Some r"
  shows "crawl_inv E start_urls r \<and> queue r = []"
  using assms unfolding discover_run_def
  by (rule frontier_loop_rule) (simp_all add: crawl_inv_init crawl_inv_loop_body)

lemma reachable_visited_final:
  assumes inv: "crawl_inv E start_urls r" and q: "queue r = []"
  shows "visited_listing_pages r = reachable E start_urls"
proof
  show "visited_listing_pages r \<subseteq> reachable E start_urls"
    using inv by (simp add: crawl_inv_def)
  show "reachable E start_urls \<subseteq> visited_listing_pages r"
  proof
    fix u assume "u \<in> reachable E start_urls"
    then show "u \<in> visited_listing_pages r"
    proof (induction rule: reachable.induct)
      case (start u)
      with inv q show ?case by (auto simp: crawl_inv_def)
    next
      case (step u n)
      with inv q show ?case by (auto simp: crawl_inv_def)
    qed
  qed
qed

lemma discover_run_terminates:
  assumes "finite (reachable E start_urls)"
  shows "\<exists>r. discover_run E start_urls = Some r"
  unfolding discover_run_def
proof (rule frontier_loop_terminates[OF assms])
  show "set (queue (init_state start_urls)) \<subseteq> reachable E start_urls"
    by (auto simp: init_state_def intro: reachable.start)
  show "\<And>u n. u \<in> reachable E start_urls \<Longrightarrow> page_next E u = Some n \<Longrightarrow> n \<in> reachable E start_urls"
    by (rule reachable.step)
qed

lemma reachable_subset:
  assumes "set start_urls \<subseteq> R" and "\<And>u n. u \<in> R \<Longrightarrow> page_next E u = Some n \<Longrightarrow> n \<in> R"
  shows "reachable E start_urls \<subseteq> R"
proof
  fix u assume "u \<in> reachable E start_urls"
  then show "u \<in> R" by (induction rule: reachable.induct) (use assms in auto)
qed

lemma finite_discovered:
  assumes "crawl_inv E start_urls r"
  shows "finite (product_urls r)"
  using assms by (simp add: crawl_inv_def finite_page_products)

subsection \<open>Runs on the concrete sites\<close>

lemmas site_simps = listing_site_def loop_body_def next_url_of_def absolute_url_def ustr_def Let_def

lemma two_pages_run:
  "discover_run (listing_site two_pages) [ustr ''/1''] =
     Some \<lparr>queue = [], visited_listing_pages = {ustr ''/2'', ustr ''/1''},
           product_urls = {ustr ''/c'', ustr ''/a'', ustr ''/b''},
           trace = [Enqueue (ustr ''/1''), Fetch (ustr ''/1''), Enqueue (ustr ''/2''),
                    Fetch (ustr ''/2'')]\<rparr>"
  by (simp add: discover_run_def init_state_def frontier_loop.simps two_pages_def site_simps
        insert_commute)

lemma two_pages_sorted:
  "sorted_list_of_set {ustr ''/c'', ustr ''/a'', ustr ''/b''} = [ustr ''/a'', ustr ''/b'', ustr ''/c'']"
  by code_simp

lemma two_pages_discover:
  "discover_product_urls (listing_site two_pages) [ustr ''/1''] =
     Some [ustr ''/a'', ustr ''/b'', ustr ''/c'']"
  by (simp add: discover_product_urls_def two_pages_run two_pages_sorted)

lemma two_pages_next:
  "page_next (listing_site two_pages) u = (if u = ustr ''/1'' then Some (ustr ''/2'') else None)"
  by (simp add: page_next_def two_pages_def listing_site_def next_url_of_def absolute_url_def
        ustr_def)

lemma two_pages_reachable:
  "reachable (listing_site two_pages) [ustr ''/1''] = {ustr ''/1'', ustr ''/2''}"
proof
  show "reachable (listing_site two_pages) [ustr ''/1''] \<subseteq> {ustr ''/1'', ustr ''/2''}"
    by (rule reachable_subset) (auto simp: two_pages_next split: if_splits)
  have 1: "ustr ''/1'' \<in> reachable (listing_site two_pages) [ustr ''/1'']"
    by (rule reachable.start) simp
  have 2: "ustr ''/2'' \<in> reachable (listing_site two_pages) [ustr ''/1'']"
    by (rule reachable.step[OF 1]) (simp add: two_pages_next)
  from 1 2 show "{ustr ''/1'', ustr ''/2''} \<subseteq> reachable (listing_site two_pages) [ustr ''/1'']"
    by simp
qed

lemma cycle_run:
  "discover_run (listing_site cycle_pages) [ustr ''/1''] =
     Some \<lparr>queue = [], visited_listing_pages = {ustr ''/2'', ustr ''/1''},
           product_urls = {ustr ''/b'', ustr ''/a''},
           trace = [Enqueue (ustr ''/1''), Fetch (ustr ''/1''), Enqueue (ustr ''/2''),
                    Fetch (ustr ''/2'')]\<rparr>"
  by (simp add: discover_run_def init_state_def frontier_loop.simps cycle_pages_def site_simps
        insert_commute)

lemma cycle_iterates:
  "(loop_body (listing_site cycle_pages) ^^ 2) (init_state [ustr ''/1'']) =
     \<lparr>queue = [], visited_listing_pages = {ustr ''/2'', ustr ''/1''},
      product_urls = {ustr ''/b'', ustr ''/a''},
      trace = [Enqueue (ustr ''/1''), Fetch (ustr ''/1''), Enqueue (ustr ''/2''),
               Fetch (ustr ''/2'')]\<rparr>"
  by (simp add: numeral_2_eq_2 init_state_def cycle_pages_def site_simps insert_commute)

lemma merging_run:
  "discover_run (listing_site merging_pages) [ustr ''/1'', ustr ''/2''] =
     Some \<lparr>queue = [], visited_listing_pages = {ustr ''/3'', ustr ''/2'', ustr ''/1''},
           product_urls = {ustr ''/a''},
           trace = [Enqueue (ustr ''/1''), Enqueue (ustr ''/2''), Fetch (ustr ''/1''),
                    Enqueue (ustr ''/3''), Fetch (ustr ''/2''), Enqueue (ustr ''/3''),
                    Fetch (ustr ''/3'')]\<rparr>"
  by (simp add: discover_run_def init_state_def frontier_loop.simps merging_pages_def site_simps
        insert_commute)

lemma merging_page_1:
  "page_products (listing_site merging_pages) (ustr ''/1'') = {} \<and>
   page_next (listing_site merging_pages) (ustr ''/1'') = Some (ustr ''/3'')"
  by (simp add: page_products_def page_next_def merging_pages_def listing_site_def next_url_of_def
        absolute_url_def ustr_def)

subsection \<open>The pagination loop of the CSV variant\<close>

lemmas browser_simps = catalogue_browser_def run_iteration_def parse_product_links_def
  get_next_page_def ustr_def Let_def

lemma run_iteration_no_products:
  assumes "goto B (current_url s) = Some html" and "parse_product_links B html = []"
  shows "run_iteration B s = Break (s\<lparr>loaded := loaded s @ [current_url s]\<rparr>)"
  using assms by (simp add: run_iteration_def)

lemma cycle_iteration:
  assumes "current_url s = ustr ''/1'' \<or> current_url s = ustr ''/2''"
  shows "\<exists>s'. run_iteration (catalogue_browser catalogue_cycle) s = Continue s' \<and>
              (current_url s' = ustr ''/1'' \<or> current_url s' = ustr ''/2'')"
  using assms by (auto simp: browser_simps catalogue_cycle_def)

lemma run_loop_cycle_aux:
  assumes run: "run_loop B s = Some r"
  shows "\<not> (B = catalogue_browser catalogue_cycle \<and>
            (current_url s = ustr ''/1'' \<or> current_url s = ustr ''/2''))"
proof (rule run_loop.raw_induct[where P = "\<lambda>B s r. \<not> (B = catalogue_browser catalogue_cycle \<and>
            (current_url s = ustr ''/1'' \<or> current_url s = ustr ''/2''))", OF _ run])
  fix loop :: "catalogue_element browser \<Rightarrow> run_state \<Rightarrow> run_state option" and B s r
  assume IH: "\<And>B s r. loop B s = Some r \<Longrightarrow> \<not> (B = catalogue_browser catalogue_cycle \<and>
            (current_url s = ustr ''/1'' \<or> current_url s = ustr ''/2''))"
    and eq: "(if current_url s = [] then Some s
              else case run_iteration B s of Break s' \<Rightarrow> Some s' | Continue s' \<Rightarrow> loop B s') = Some r"
  show "\<not> (B = catalogue_browser catalogue_cycle \<and>
            (current_url s = ustr ''/1'' \<or> current_url s = ustr ''/2''))"
  proof
    assume a: "B = catalogue_browser catalogue_cycle \<and>
            (current_url s = ustr ''/1'' \<or> current_url s = ustr ''/2'')"
    then have ne: "current_url s \<noteq> []" by (auto simp: ustr_def)
    from a cycle_iteration[of s] obtain s' where
      it: "run_iteration B s = Continue s'" and
      cur: "current_url s' = ustr ''/1'' \<or> current_url s' = ustr ''/2''" by auto
    from eq ne it have "loop B s' = Some r" by simp
    from IH[OF this] a cur show False by simp
  qed
qed

lemma landing_run:
  "run (catalogue_browser catalogue_landing) (ustr ''/1'') =
     Some \<lparr>current_url = ustr ''/1'', page_index = 1, seen_links = {}, produtos = [],
           loaded = [ustr ''/1'']\<rparr>"
  by (simp add: run_def run_init_def run_loop.simps browser_simps catalogue_landing_def)

lemma landing_page:
  "goto (catalogue_browser catalogue_landing) (ustr ''/1'') = Some (ustr ''/1'') \<and>
   parse_product_links (catalogue_browser catalogue_landing) (ustr ''/1'') = [] \<and>
   get_next_page (catalogue_browser catalogue_landing) (ustr ''/1'') = Some (ustr ''/2'')"
  by (simp add: browser_simps catalogue_landing_def)

subsection \<open>Strings\<close>

lemma dropWhile_idem: "dropWhile P (dropWhile P xs) = dropWhile P xs"
  by (induction xs) auto

lemma dropWhile_rev_dropWhile:
  "dropWhile P (rev (dropWhile P (rev (dropWhile P xs)))) = rev (dropWhile P (rev (dropWhile P xs)))"
proof -
  define t where "t = dropWhile P xs"
  define r where "r = rev (dropWhile P (rev t))"
  have "dropWhile P r = r"
  proof (cases r)
    case Nil
    then show ?thesis by simp
  next
    case (Cons y ys)
    have "rev (rev t) = rev (takeWhile P (rev t) @ dropWhile P (rev t))"
      by (simp only: takeWhile_dropWhile_id)
    then have split: "t = r @ rev (takeWhile P (rev t))"
      by (simp only: rev_rev_ident rev_append r_def)
    then have "t \<noteq> []" using Cons by auto
    then have "\<not> P (hd t)" unfolding t_def by (simp add: hd_dropWhile)
    moreover have "hd t = y" using split Cons by (cases t) auto
    ultimately show ?thesis using Cons by simp
  qed
  then show ?thesis by (simp add: r_def t_def)
qed

lemma strip_idem: "strip (strip s) = strip s"
  unfolding strip_def by (simp add: dropWhile_rev_dropWhile dropWhile_idem)

lemma strip_all_space: "\<forall>c\<in>set s. isspace c \<Longrightarrow> strip s = []"
proof -
  assume "\<forall>c\<in>set s. isspace c"
  then have "\<forall>c\<in>set (dropWhile isspace s). isspace c" by (auto dest: set_dropWhileD)
  then show ?thesis by (simp add: strip_def)
qed

lemma startswith_single: "startswith s [c] \<longleftrightarrow> s \<noteq> [] \<and> hd s = c"
  by (cases s) auto

lemma contains_single: "contains s [c] \<longleftrightarrow> c \<in> set s"
  by (induction s) (auto simp: startswith_single)

lemma split_from_zero: "split_from (Some 0) sep acc s = [rev acc @ s]"
proof (induction s arbitrary: acc)
  case Nil
  show ?case by (subst split_from.simps) simp
next
  case (Cons c cs)
  show ?case by (subst split_from.simps) (simp add: Cons)
qed

lemma split_from_first:
  "c \<notin> set pre \<Longrightarrow> split_from (Some 1) [c] acc (pre @ c # rest) = [rev acc @ pre, rest]"
proof (induction pre arbitrary: acc)
  case Nil
  show ?case by (subst split_from.simps) (simp add: split_from_zero)
next
  case (Cons p pre)
  then have "p \<noteq> c" by auto
  then show ?case using Cons by (subst split_from.simps) simp
qed

lemma split_first:
  assumes "c \<in> set s"
  shows "split s [c] (Some 1) = Inr [takeWhile (\<lambda>x. x \<noteq> c) s, tl (dropWhile (\<lambda>x. x \<noteq> c) s)]"
proof -
  from split_list_first[OF assms] obtain pre rest where s: "s = pre @ c # rest" and n: "c \<notin> set pre"
    by blast
  from n have n': "\<forall>x\<in>set pre. x \<noteq> c" by auto
  have t: "takeWhile (\<lambda>x. x \<noteq> c) s = pre" using n' by (simp add: s)
  have d: "dropWhile (\<lambda>x. x \<noteq> c) s = c # rest" using n' by (simp add: s)
  show ?thesis using split_from_first[OF n, of "[]" rest] by (simp add: split_def t d s[symmetric])
qed

subsection \<open>The extraction of product details\<close>

lemma clean_keys_update:
  "clean_keys info \<Longrightarrow> k \<noteq> [] \<Longrightarrow> strip k = k \<Longrightarrow> clean_keys (AList.update k v info)"
  by (auto simp: clean_keys_def update_keys list_all_iff)

text \<open>What one segment does to the dictionary.\<close>

lemma parse_parts_step:
  assumes "part \<noteq> []" and "try_get_text L (BeautifulSoup L part) (ustr '' '') = Inr part_text"
  shows "parse_parts L (part # parts) info =
           parse_parts L parts
             (if part_text \<noteq> [] \<and> \<not> startswith (lower part_text) informacoes_tecnicas \<and>
                 58 \<in> set part_text \<and> strip (takeWhile (\<lambda>x. x \<noteq> 58) part_text) \<noteq> []
              then AList.update (strip (takeWhile (\<lambda>x. x \<noteq> 58) part_text))
                     (strip (tl (dropWhile (\<lambda>x. x \<noteq> 58) part_text))) info
              else info)"
proof (cases "58 \<in> set part_text")
  case True
  from split_first[OF True] have sp: "split part_text (ustr '':'') (Some (Suc 0)) =
      Inr [takeWhile (\<lambda>x. x \<noteq> 58) part_text, tl (dropWhile (\<lambda>x. x \<noteq> 58) part_text)]"
    by (simp add: ustr_def)
  have c: "contains part_text (ustr '':'')" using True by (simp add: ustr_def contains_single)
  show ?thesis using assms True by (simp add: sp c Let_def)
next
  case False
  then have c: "\<not> contains part_text (ustr '':'')" by (simp add: ustr_def contains_single)
  show ?thesis using assms False by (simp add: c)
qed

lemma parse_parts_clean_keys:
  "parse_parts L parts info = Inr info' \<Longrightarrow> clean_keys info \<Longrightarrow> clean_keys info'"
proof (induction parts arbitrary: info)
  case Nil
  then show ?case by simp
next
  case (Cons part parts)
  show ?case
  proof (cases "part = []")
    case True
    with Cons show ?thesis by simp
  next
    case False
    from Cons.prems(1) False obtain part_text where
      gt: "try_get_text L (BeautifulSoup L part) (ustr '' '') = Inr part_text"
      by (auto split: sum.splits)
    note step = parse_parts_step[OF False gt, of parts info]
    show ?thesis
    proof (rule Cons.IH)
      show "parse_parts L parts
             (if part_text \<noteq> [] \<and> \<not> startswith (lower part_text) informacoes_tecnicas \<and>
                 58 \<in> set part_text \<and> strip (takeWhile (\<lambda>x. x \<noteq> 58) part_text) \<noteq> []
              then AList.update (strip (takeWhile (\<lambda>x. x \<noteq> 58) part_text))
                     (strip (tl (dropWhile (\<lambda>x. x \<noteq> 58) part_text))) info
              else info) = Inr info'"
        using Cons.prems(1) step by simp
      show "clean_keys
             (if part_text \<noteq> [] \<and> \<not> startswith (lower part_text) informacoes_tecnicas \<and>
                 58 \<in> set part_text \<and> strip (takeWhile (\<lambda>x. x \<noteq> 58) part_text) \<noteq> []
              then AList.update (strip (takeWhile (\<lambda>x. x \<noteq> 58) part_text))
                     (strip (tl (dropWhile (\<lambda>x. x \<noteq> 58) part_text))) info
              else info)"
        using Cons.prems(2) by (simp add: clean_keys_update strip_idem)
    qed
  qed
qed

lemma scrape_product_details_unfetched:
  "fetch_html_raises L product_url = None \<Longrightarrow> fetch_html L product_url = None \<Longrightarrow>
   scrape_product_details L product_url = Inr (empty_details product_url)"
  by (simp add: scrape_product_details_def)

lemma technical_info_block_alone:
  "except (technical_info_block L soup (fst (advantages_block L soup))) [] =
   except (technical_info_alone L soup) []"
  by (auto simp: technical_info_block_def technical_info_alone_def advantages_block_def except_def
        split: sum.split option.split)

lemma scrape_product_details_fetched:
  assumes "fetch_html_raises L product_url = None"
      and "fetch_html L product_url = Some html"
      and "BeautifulSoup_raises L html = None"
  shows "scrape_product_details L product_url =
     Inr \<lparr>url = product_url,
          title = except (title_block L (BeautifulSoup L html)) None,
          short_description = except (short_description_block L (BeautifulSoup L html)) None,
          categories = except (categories_block L (BeautifulSoup L html)) [],
          tags = except (tags_block L (BeautifulSoup L html)) [],
          advantages = except (snd (advantages_block L (BeautifulSoup L html))) [],
          technical_info = except (technical_info_alone L (BeautifulSoup L html)) []\<rparr>"
  using assms
  by (simp add: scrape_product_details_def Let_def technical_info_block_alone[symmetric]
        split: prod.split)

lemma scrape_product_details_raises:
  "scrape_product_details L product_url = Inl e \<longleftrightarrow>
     fetch_html_raises L product_url = Some e \<or>
     (fetch_html_raises L product_url = None \<and>
      (\<exists>html. fetch_html L product_url = Some html \<and> BeautifulSoup_raises L html = Some e))"
  by (auto simp: scrape_product_details_def Let_def split: option.splits prod.splits)

lemma except_unfetched:
  "fetch_html L product_url = None \<Longrightarrow>
   except (scrape_product_details L product_url) (empty_details product_url) =
     empty_details product_url"
  by (simp add: scrape_product_details_def except_def split: option.splits)

lemma clean_keys_Nil: "clean_keys []"
  by (simp add: clean_keys_def)

lemma technical_info_of_tab_clean_keys:
  "technical_info_of_tab L tab = Inr info \<Longrightarrow> clean_keys info"
  by (auto simp: technical_info_of_tab_def Let_def clean_keys_Nil
        split: sum.splits option.splits dest: parse_parts_clean_keys)

lemma technical_info_alone_clean_keys: "clean_keys (except (technical_info_alone L soup) [])"
  by (auto simp: technical_info_alone_def except_def clean_keys_Nil
        split: sum.splits option.splits dest: technical_info_of_tab_clean_keys)

lemma scrape_product_details_clean_keys:
  assumes "scrape_product_details L product_url = Inr r"
  shows "clean_keys (technical_info r)"
proof (cases "fetch_html L product_url")
  case None
  with assms show ?thesis
    by (auto simp: scrape_product_details_def empty_details_def clean_keys_Nil
          split: option.splits)
next
  case (Some html)
  from assms have f: "fetch_html_raises L product_url = None"
    by (auto simp: scrape_product_details_def split: option.splits)
  from assms Some f have b: "BeautifulSoup_raises L html = None"
    by (auto simp: scrape_product_details_def split: option.splits)
  from assms show ?thesis
    by (auto simp: scrape_product_details_fetched[OF f Some b] technical_info_alone_clean_keys)
qed

lemma isspace_not_colon: "isspace c \<Longrightarrow> c \<noteq> 58"
  by (auto simp: isspace_def)

lemma parse_parts_blank_key:
  assumes "part \<noteq> []"
      and "try_get_text L (BeautifulSoup L part) (ustr '' '') = Inr (ws @ 58 # v)"
      and "\<forall>c\<in>set ws. isspace c"
  shows "parse_parts L (part # parts) info = parse_parts L parts info"
proof -
  have "\<forall>c\<in>set ws. c \<noteq> 58" using assms(3) isspace_not_colon by blast
  then have "takeWhile (\<lambda>x. x \<noteq> 58) (ws @ 58 # v) = ws" by simp
  then show ?thesis
    using parse_parts_step[OF assms(1,2), of parts info] strip_all_space[OF assms(3)] by simp
qed

lemma find_target_h2_found:
  assumes "\<forall>h\<in>set before. \<exists>t. try_get_text L h (ustr '' '') = Inr t \<and>
             \<not> contains (lower t) (ustr ''vantagens'')"
      and "try_get_text L target_h2 (ustr '' '') = Inr heading_text"
      and "contains (lower heading_text) (ustr ''vantagens'')"
  shows "find_target_h2 L (before @ target_h2 # after) = Inr (Some target_h2)"
  using assms by (induction before) auto

lemma find_target_h2_none:
  assumes "\<forall>h\<in>set h2_list. \<exists>t. try_get_text L h (ustr '' '') = Inr t \<and>
             \<not> contains (lower t) (ustr ''vantagens'')"
  shows "find_target_h2 L h2_list = Inr None"
  using assms by (induction h2_list) auto

lemma item_texts_all:
  "map (\<lambda>li. try_get_text L li (ustr '' '')) lis = map Inr texts \<Longrightarrow>
   item_texts L lis acc = Inr (acc @ filter (\<lambda>t. t \<noteq> []) texts)"
proof (induction lis arbitrary: texts acc)
  case Nil
  then show ?case by simp
next
  case (Cons li lis)
  then obtain t ts where texts: "texts = t # ts" by (cases texts) auto
  with Cons.prems have t: "try_get_text L li (ustr '' '') = Inr t"
    and ts: "map (\<lambda>li. try_get_text L li (ustr '' '')) lis = map Inr ts" by simp_all
  show ?case using Cons.IH[OF ts] t by (simp add: texts)
qed

lemma find_target_p_found:
  assumes "\<forall>p\<in>set before. try_find L p (ustr ''strong'') = Inr None \<or>
             (\<exists>strong t. try_find L p (ustr ''strong'') = Inr (Some strong) \<and>
                try_get_text L strong (ustr '' '') = Inr t \<and>
                \<not> contains (lower t) informacoes_tecnicas)"
      and "try_find L target_p (ustr ''strong'') = Inr (Some strong)"
      and "try_get_text L strong (ustr '' '') = Inr lead_in"
      and "contains (lower lead_in) informacoes_tecnicas"
  shows "find_target_p L (before @ target_p # after) = Inr (Some target_p)"
  using assms by (induction before) auto

lemma advantages_of_details:
  assumes "fetch_html_raises L product_url = None"
      and "fetch_html L product_url = Some html"
      and "BeautifulSoup_raises L html = None"
      and "try_select_one L (BeautifulSoup L html) (ustr ''div#tab-description'') = Inr (Some desc_tab)"
  shows "\<exists>r. scrape_product_details L product_url = Inr r \<and>
             advantages r = except (advantages_of_tab L desc_tab) []"
  using assms(4) by (simp add: scrape_product_details_fetched[OF assms(1-3)] advantages_block_def)

lemma technical_info_of_details:
  assumes "fetch_html_raises L product_url = None"
      and "fetch_html L product_url = Some html"
      and "BeautifulSoup_raises L html = None"
      and "try_select_one L (BeautifulSoup L html) (ustr ''div#tab-description'') = Inr (Some desc_tab)"
  shows "\<exists>r. scrape_product_details L product_url = Inr r \<and>
             technical_info r = except (technical_info_of_tab L desc_tab) []"
  using assms(4)
  by (simp add: scrape_product_details_fetched[OF assms(1-3)] technical_info_alone_def)

lemmas str_eval = ustr_def strip_def isspace_def lower_def lower_cp_def informacoes_tecnicas_def
  title_line_def lead_in_markup_def

lemmas paragraph_eval = paragraph_with_breaks_def lead_in_markup_def title_line_def ustr_def
  split_def replace.simps split_from.simps

lemma paragraph_pieces_slash:
  "split (replace (replace (paragraph_with_breaks (ustr ''<br/>'')) (ustr ''<br/>'') (ustr ''<br>''))
            (ustr ''<br />'') (ustr ''<br>'')) (ustr ''<br>'') None =
     Inr [lead_in_markup @ ustr '' '', ustr ''Cor: Azul'', ustr ''Tamanho: M'', ustr ''Cor: Vermelho'']"
  by (simp add: paragraph_eval)

lemma paragraph_pieces_blank_slash:
  "split (replace (replace (paragraph_with_breaks (ustr ''<br />'')) (ustr ''<br/>'') (ustr ''<br>''))
            (ustr ''<br />'') (ustr ''<br>'')) (ustr ''<br>'') None =
     Inr [lead_in_markup @ ustr '' '', ustr ''Cor: Azul'', ustr ''Tamanho: M'', ustr ''Cor: Vermelho'']"
  by (simp add: paragraph_eval)

lemma paragraph_pieces_plain:
  "split (replace (replace (paragraph_with_breaks (ustr ''<br>'')) (ustr ''<br/>'') (ustr ''<br>''))
            (ustr ''<br />'') (ustr ''<br>'')) (ustr ''<br>'') None =
     Inr [lead_in_markup @ ustr '' '', ustr ''Cor: Azul'', ustr ''Tamanho: M'', ustr ''Cor: Vermelho'']"
  by (simp add: paragraph_eval)

lemma paragraph_pieces:
  assumes "br \<in> set [ustr ''<br/>'', ustr ''<br />'', ustr ''<br>'']"
  shows "split (replace (replace (paragraph_with_breaks br) (ustr ''<br/>'') (ustr ''<br>''))
            (ustr ''<br />'') (ustr ''<br>'')) (ustr ''<br>'') None =
     Inr [lead_in_markup @ ustr '' '', ustr ''Cor: Azul'', ustr ''Tamanho: M'', ustr ''Cor: Vermelho'']"
proof -
  from assms consider "br = ustr ''<br/>''" | "br = ustr ''<br />''" | "br = ustr ''<br>''"
    by auto
  then show ?thesis
  proof cases
    case 1
    then show ?thesis by (simp only: paragraph_pieces_slash)
  next
    case 2
    then show ?thesis by (simp only: paragraph_pieces_blank_slash)
  next
    case 3
    then show ?thesis by (simp only: paragraph_pieces_plain)
  qed
qed

lemma paragraph_parts:
  "map strip [lead_in_markup @ ustr '' '', ustr ''Cor: Azul'', ustr ''Tamanho: M'',
          ustr ''Cor: Vermelho''] =
     [lead_in_markup, ustr ''Cor: Azul'', ustr ''Tamanho: M'', ustr ''Cor: Vermelho'']"
  by (simp add: str_eval)

lemma title_line_step:
  "lead_in_markup \<noteq> [] \<and> title_line \<noteq> [] \<and>
   startswith (lower title_line) informacoes_tecnicas"
  by (simp add: str_eval)

lemma cor_azul_step:
  "ustr ''Cor: Azul'' \<noteq> [] \<and> \<not> startswith (lower (ustr ''Cor: Azul'')) informacoes_tecnicas \<and>
   58 \<in> set (ustr ''Cor: Azul'') \<and>
   strip (takeWhile (\<lambda>x. x \<noteq> 58) (ustr ''Cor: Azul'')) = ustr ''Cor'' \<and>
   strip (tl (dropWhile (\<lambda>x. x \<noteq> 58) (ustr ''Cor: Azul''))) = ustr ''Azul'' \<and> ustr ''Cor'' \<noteq> []"
  by (simp add: str_eval)

lemma tamanho_step:
  "ustr ''Tamanho: M'' \<noteq> [] \<and> \<not> startswith (lower (ustr ''Tamanho: M'')) informacoes_tecnicas \<and>
   58 \<in> set (ustr ''Tamanho: M'') \<and>
   strip (takeWhile (\<lambda>x. x \<noteq> 58) (ustr ''Tamanho: M'')) = ustr ''Tamanho'' \<and>
   strip (tl (dropWhile (\<lambda>x. x \<noteq> 58) (ustr ''Tamanho: M''))) = ustr ''M'' \<and> ustr ''Tamanho'' \<noteq> []"
  by (simp add: str_eval)

lemma cor_vermelho_step:
  "ustr ''Cor: Vermelho'' \<noteq> [] \<and> \<not> startswith (lower (ustr ''Cor: Vermelho'')) informacoes_tecnicas \<and>
   58 \<in> set (ustr ''Cor: Vermelho'') \<and>
   strip (takeWhile (\<lambda>x. x \<noteq> 58) (ustr ''Cor: Vermelho'')) = ustr ''Cor'' \<and>
   strip (tl (dropWhile (\<lambda>x. x \<noteq> 58) (ustr ''Cor: Vermelho''))) = ustr ''Vermelho''"
  by (simp add: str_eval)

lemma example_updates:
  "AList.update (ustr ''Cor'') (ustr ''Vermelho'')
     (AList.update (ustr ''Tamanho'') (ustr ''M'') (AList.update (ustr ''Cor'') (ustr ''Azul'') [])) =
   [(ustr ''Cor'', ustr ''Vermelho''), (ustr ''Tamanho'', ustr ''M'')]"
  by (simp add: ustr_def)

lemma parse_parts_example:
  assumes "try_get_text L (BeautifulSoup L lead_in_markup) (ustr '' '') = Inr title_line"
      and "\<forall>segment\<in>set [ustr ''Cor: Azul'', ustr ''Tamanho: M'', ustr ''Cor: Vermelho''].
             try_get_text L (BeautifulSoup L segment) (ustr '' '') = Inr segment"
  shows "parse_parts L [lead_in_markup, ustr ''Cor: Azul'', ustr ''Tamanho: M'', ustr ''Cor: Vermelho''] [] =
           Inr [(ustr ''Cor'', ustr ''Vermelho''), (ustr ''Tamanho'', ustr ''M'')]"
proof -
  note t = assms(1)
  have a: "try_get_text L (BeautifulSoup L (ustr ''Cor: Azul'')) (ustr '' '') = Inr (ustr ''Cor: Azul'')"
    and m: "try_get_text L (BeautifulSoup L (ustr ''Tamanho: M'')) (ustr '' '') = Inr (ustr ''Tamanho: M'')"
    and v: "try_get_text L (BeautifulSoup L (ustr ''Cor: Vermelho'')) (ustr '' '') = Inr (ustr ''Cor: Vermelho'')"
    using assms(2) by simp_all
  have 1: "parse_parts L (lead_in_markup # parts) info = parse_parts L parts info" for parts info
    using title_line_step by (subst parse_parts_step[OF _ t]) simp_all
  have 2: "parse_parts L (ustr ''Cor: Azul'' # parts) info =
             parse_parts L parts (AList.update (ustr ''Cor'') (ustr ''Azul'') info)" for parts info
    using cor_azul_step by (subst parse_parts_step[OF _ a]) simp_all
  have 3: "parse_parts L (ustr ''Tamanho: M'' # parts) info =
             parse_parts L parts (AList.update (ustr ''Tamanho'') (ustr ''M'') info)" for parts info
    using tamanho_step by (subst parse_parts_step[OF _ m]) simp_all
  have 4: "parse_parts L (ustr ''Cor: Vermelho'' # parts) info =
             parse_parts L parts (AList.update (ustr ''Cor'') (ustr ''Vermelho'') info)" for parts info
    using cor_vermelho_step cor_azul_step by (subst parse_parts_step[OF _ v]) simp_all
  show ?thesis
    by (simp only: 1 2 3 4 parse_parts.simps(1) example_updates)
qed

lemma technical_info_of_tab_example:
  assumes "try_select L desc_tab (ustr ''p'') = Inr (before @ target_p # after)"
      and "\<forall>p\<in>set before. try_find L p (ustr ''strong'') = Inr None \<or>
             (\<exists>strong t. try_find L p (ustr ''strong'') = Inr (Some strong) \<and>
                try_get_text L strong (ustr '' '') = Inr t \<and>
                \<not> contains (lower t) informacoes_tecnicas)"
      and "try_find L target_p (ustr ''strong'') = Inr (Some strong)"
      and "try_get_text L strong (ustr '' '') = Inr lead_in"
      and "contains (lower lead_in) informacoes_tecnicas"
      and "try_decode_contents L target_p = Inr (paragraph_with_breaks br)"
      and "br \<in> set [ustr ''<br/>'', ustr ''<br />'', ustr ''<br>'']"
      and "try_get_text L (BeautifulSoup L lead_in_markup) (ustr '' '') = Inr title_line"
      and "\<forall>segment\<in>set [ustr ''Cor: Azul'', ustr ''Tamanho: M'', ustr ''Cor: Vermelho''].
             try_get_text L (BeautifulSoup L segment) (ustr '' '') = Inr segment"
  shows "technical_info_of_tab L desc_tab =
           Inr [(ustr ''Cor'', ustr ''Vermelho''), (ustr ''Tamanho'', ustr ''M'')]"
proof -
  note p = find_target_p_found[OF assms(2,3,4,5), of after]
  show ?thesis
    unfolding technical_info_of_tab_def
    by (simp only: assms(1) p assms(6) Let_def paragraph_pieces[OF assms(7)] paragraph_parts
          parse_parts_example[OF assms(8,9)] sum.case option.case)
qed

lemma advantages_of_tab_found:
  assumes "try_select L desc_tab (ustr ''h2'') = Inr (before @ target_h2 # after)"
      and "\<forall>h\<in>set before. \<exists>t. try_get_text L h (ustr '' '') = Inr t \<and>
             \<not> contains (lower t) (ustr ''vantagens'')"
      and "try_get_text L target_h2 (ustr '' '') = Inr heading_text"
      and "contains (lower heading_text) (ustr ''vantagens'')"
      and "try_find_next L target_h2 (ustr ''ul'') = Inr (Some ul)"
      and "try_select L ul (ustr ''li'') = Inr lis"
      and "map (\<lambda>li. try_get_text L li (ustr '' '')) lis = map Inr texts"
  shows "advantages_of_tab L desc_tab = Inr (filter (\<lambda>t. t \<noteq> []) texts)"
proof -
  note h = find_target_h2_found[OF assms(2,3,4), of after]
  show ?thesis
    unfolding advantages_of_tab_def
    by (simp add: assms(1) h assms(5) assms(6) item_texts_all[OF assms(7)])
qed

lemma advantages_of_tab_no_list:
  assumes "try_select L desc_tab (ustr ''h2'') = Inr (before @ target_h2 # after)"
      and "\<forall>h\<in>set before. \<exists>t. try_get_text L h (ustr '' '') = Inr t \<and>
             \<not> contains (lower t) (ustr ''vantagens'')"
      and "try_get_text L target_h2 (ustr '' '') = Inr heading_text"
      and "contains (lower heading_text) (ustr ''vantagens'')"
      and "try_find_next L target_h2 (ustr ''ul'') = Inr None"
  shows "advantages_of_tab L desc_tab = Inr []"
proof -
  note h = find_target_h2_found[OF assms(2,3,4), of after]
  show ?thesis
    unfolding advantages_of_tab_def by (simp add: assms(1) h assms(5))
qed

lemma advantages_of_tab_no_heading:
  assumes "try_select L desc_tab (ustr ''h2'') = Inr h2_list"
      and "\<forall>h\<in>set h2_list. \<exists>t. try_get_text L h (ustr '' '') = Inr t \<and>
             \<not> contains (lower t) (ustr ''vantagens'')"
  shows "advantages_of_tab L desc_tab = Inr []"
  unfolding advantages_of_tab_def by (simp add: assms(1) find_target_h2_none[OF assms(2)])

lemma scrape_all_append:
  "scrape_all L urls results =
     results @ map (\<lambda>u. except (scrape_product_details L u) (empty_details u)) urls"
  by (induction urls arbitrary: results) (auto simp: except_def split: sum.split)

lemma url_of_details:
  "url (except (scrape_product_details L u) (empty_details u)) = u"
  by (auto simp: scrape_product_details_def except_def empty_details_def Let_def
        split: option.splits prod.splits)

subsection \<open>The shop\<close>

lemmas shop_eval = shop_def ustr_def

lemma shop_fetch: "fetch_html (shop raising) u = (if u = ustr ''/down'' then None else Some u)"
  by (simp add: shop_def)

lemma shop_fetch_p: "fetch_html (shop raising) (ustr ''/p'') = Some (ustr ''/p'')"
  by (simp add: shop_eval)

lemma shop_soup: "BeautifulSoup (shop raising) html = Soup html"
  by (simp add: shop_def)

lemma shop_returns:
  "fetch_html_raises (shop raising) (ustr ''/p'') = None"
  "fetch_html_raises (shop raising) (ustr ''/q'') = None"
  "fetch_html_raises (shop raising) (ustr ''/r'') = None"
  "fetch_html_raises (shop raising) (ustr ''/x'') = None"
  "fetch_html_raises (shop raising) (ustr ''/down'') = None"
  "fetch_html_raises (shop raising) (ustr ''/broken'') = None"
  "BeautifulSoup_raises (shop raising) (ustr ''/p'') = None"
  "BeautifulSoup_raises (shop raising) (ustr ''/q'') = None"
  "BeautifulSoup_raises (shop raising) (ustr ''/r'') = None"
  "BeautifulSoup_raises (shop raising) (ustr ''/x'') = None"
  by (simp_all add: shop_eval)

lemma shop_raises:
  "fetch_html_raises (shop raising) (ustr ''http://a..b.invalid/'') = Some LibraryError"
  "fetch_html (shop raising) (ustr ''/broken'') = Some (ustr ''/broken'')"
  "BeautifulSoup_raises (shop raising) (ustr ''/broken'') = Some LibraryError"
  by (simp_all add: shop_eval)

lemma shop_text: "try_get_text (shop raising) e sep =
   (case e of
      Soup s \<Rightarrow> Inr (fragment_text s sep)
    | Product_Title \<Rightarrow> Inr (ustr ''Vinil Azul'')
    | Category_Link t \<Rightarrow> Inr (strip t)
    | Heading t \<Rightarrow> Inr t
    | Item t \<Rightarrow> Inr t
    | Lead_In \<Rightarrow> Inr title_line
    | _ \<Rightarrow> Inr [])"
  by (simp add: shop_def)

lemma shop_lead_in:
  "try_get_text (shop raising) (BeautifulSoup (shop raising) lead_in_markup) (ustr '' '') =
     Inr title_line"
  by (simp add: shop_text shop_soup fragment_text_def str_eval)

lemma shop_segments:
  "\<forall>segment\<in>set [ustr ''Cor: Azul'', ustr ''Tamanho: M'', ustr ''Cor: Vermelho''].
     try_get_text (shop raising) (BeautifulSoup (shop raising) segment) (ustr '' '') = Inr segment"
  by (simp add: shop_text shop_soup fragment_text_def str_eval)

lemma shop_paragraph:
  "try_decode_contents (shop raising) Paragraph = Inr (paragraph_with_breaks (ustr ''<br/>''))"
  by (simp add: shop_def technical_paragraph_def)

lemma shop_tab:
  "try_select_one (shop []) (Soup (ustr ''/p'')) (ustr ''div#tab-description'') =
     Inr (Some (Description_Tab (ustr ''/p'')))"
  "try_select_one (shop []) (Soup (ustr ''/q'')) (ustr ''div#tab-description'') =
     Inr (Some (Description_Tab (ustr ''/q'')))"
  "try_select_one (shop []) (Soup (ustr ''/r'')) (ustr ''div#tab-description'') =
     Inr (Some (Description_Tab (ustr ''/r'')))"
  "try_select_one (shop [ustr ''h2.product_title.entry-title'']) (Soup (ustr ''/p''))
     (ustr ''div#tab-description'') = Inr (Some (Description_Tab (ustr ''/p'')))"
  by (simp_all add: shop_eval)

lemma shop_select:
  "try_select (shop raising) (Description_Tab (ustr ''/p'')) (ustr ''h2'') =
     Inr ([Heading (ustr ''Sobre'')] @ Heading (ustr ''VANTAGENS'') # [])"
  "try_select (shop raising) (Description_Tab (ustr ''/q'')) (ustr ''h2'') =
     Inr ([] @ Heading (ustr ''Vantagens'') # [])"
  "try_select (shop raising) (Description_Tab (ustr ''/r'')) (ustr ''h2'') =
     Inr [Heading (ustr ''Sobre'')]"
  "try_select (shop raising) (Description_Tab (ustr ''/p'')) (ustr ''p'') = Inr ([] @ Paragraph # [])"
  "try_select (shop raising) Item_List (ustr ''li'') = Inr [Item (ustr ''A''), Item (ustr ''B'')]"
  "try_select (shop raising) Posted_In (ustr ''a'') =
     Inr [Category_Link (ustr ''Vinil''), Category_Link (ustr '' '')]"
  by (simp_all add: shop_eval)

lemma shop_find:
  "try_find (shop raising) Paragraph (ustr ''strong'') = Inr (Some Lead_In)"
  "try_find_next (shop raising) (Heading (ustr ''VANTAGENS'')) (ustr ''ul'') = Inr (Some Item_List)"
  "try_find_next (shop raising) (Heading (ustr ''Vantagens'')) (ustr ''ul'') = Inr None"
  by (simp_all add: shop_eval)

lemma shop_headings:
  "\<not> contains (lower (ustr ''Sobre'')) (ustr ''vantagens'')"
  "contains (lower (ustr ''VANTAGENS'')) (ustr ''vantagens'')"
  "contains (lower (ustr ''Vantagens'')) (ustr ''vantagens'')"
  "contains (lower title_line) informacoes_tecnicas"
  by (simp_all add: str_eval)

lemma shop_technical_info:
  "technical_info_of_tab (shop raising) (Description_Tab (ustr ''/p'')) =
     Inr [(ustr ''Cor'', ustr ''Vermelho''), (ustr ''Tamanho'', ustr ''M'')]"
  by (rule technical_info_of_tab_example[OF shop_select(4) _ shop_find(1) _ shop_headings(4)
        shop_paragraph _ shop_lead_in shop_segments])
     (simp_all add: shop_text)

lemma shop_advantages:
  "advantages_of_tab (shop raising) (Description_Tab (ustr ''/p'')) = Inr [ustr ''A'', ustr ''B'']"
proof -
  have "advantages_of_tab (shop raising) (Description_Tab (ustr ''/p'')) =
          Inr (filter (\<lambda>t. t \<noteq> []) [ustr ''A'', ustr ''B''])"
    by (rule advantages_of_tab_found[OF shop_select(1) _ _ shop_headings(2) shop_find(2)
          shop_select(5)])
       (simp_all add: shop_text shop_headings(1))
  then show ?thesis by (simp add: ustr_def)
qed

lemma shop_blocks:
  "title_block (shop []) (Soup (ustr ''/p'')) = Inr (Some (ustr ''Vinil Azul''))"
  "title_block (shop [ustr ''h2.product_title.entry-title'']) (Soup (ustr ''/p'')) = Inl LibraryError"
  "short_description_block (shop []) (Soup (ustr ''/p'')) = Inr None"
  "short_description_block (shop [ustr ''h2.product_title.entry-title'']) (Soup (ustr ''/p'')) = Inr None"
  "tags_block (shop []) (Soup (ustr ''/p'')) = Inr []"
  "tags_block (shop [ustr ''h2.product_title.entry-title'']) (Soup (ustr ''/p'')) = Inr []"
  by (simp_all add: title_block_def short_description_block_def tags_block_def text_block_def
        span_block_def shop_eval)

lemma shop_categories:
  "categories_block (shop []) (Soup (ustr ''/p'')) = Inr [ustr ''Vinil'']"
  "categories_block (shop [ustr ''h2.product_title.entry-title'']) (Soup (ustr ''/p'')) =
     Inr [ustr ''Vinil'']"
  by (simp_all add: categories_block_def span_block_def shop_eval strip_def isspace_def)

lemma shop_product:
  "scrape_product_details (shop []) (ustr ''/p'') =
     Inr \<lparr>url = ustr ''/p'', title = Some (ustr ''Vinil Azul''), short_description = None,
          categories = [ustr ''Vinil''], tags = [], advantages = [ustr ''A'', ustr ''B''],
          technical_info = [(ustr ''Cor'', ustr ''Vermelho''), (ustr ''Tamanho'', ustr ''M'')]\<rparr>"
  by (subst scrape_product_details_fetched[where html = "ustr ''/p''"])
     (simp_all add: shop_returns shop_fetch_p shop_soup shop_blocks shop_categories
        advantages_block_def technical_info_alone_def shop_tab shop_advantages
        shop_technical_info except_def)

lemma shop_product_raising:
  "scrape_product_details (shop [ustr ''h2.product_title.entry-title'']) (ustr ''/p'') =
     Inr \<lparr>url = ustr ''/p'', title = None, short_description = None,
          categories = [ustr ''Vinil''], tags = [], advantages = [ustr ''A'', ustr ''B''],
          technical_info = [(ustr ''Cor'', ustr ''Vermelho''), (ustr ''Tamanho'', ustr ''M'')]\<rparr>"
  by (subst scrape_product_details_fetched[where html = "ustr ''/p''"])
     (simp_all add: shop_returns shop_fetch_p shop_soup shop_blocks shop_categories
        advantages_block_def technical_info_alone_def shop_tab shop_advantages
        shop_technical_info except_def)

lemma shop_site:
  "site.truncate (shop raising) =
     \<lparr>fetch_html = fetch_html (shop raising), BeautifulSoup = BeautifulSoup (shop raising),
      select = select (shop raising), select_one = select_one (shop raising),
      attr_get = attr_get (shop raising), urljoin = urljoin (shop raising)\<rparr>"
  by (simp add: site.truncate_def)

lemma suprimentos_fetch: "fetch_html (shop raising) suprimentos = Some suprimentos"
  by (simp add: shop_def suprimentos_def ustr_def)

lemma suprimentos_links:
  "select (shop raising) (Soup suprimentos) (ustr ''a.button.product_type_simple'') =
     [Product_Link (ustr ''/p''), Product_Link (ustr ''/down'')]"
  "select_one (shop raising) e sel = None"
  "attr_get (shop raising) (Product_Link h) (ustr ''href'') = Some h"
  "urljoin (shop raising) base rel = rel"
  by (simp_all add: shop_def)

lemma suprimentos_page:
  "page_products (site.truncate (shop raising)) suprimentos = {ustr ''/down'', ustr ''/p''}"
  "page_next (site.truncate (shop raising)) suprimentos = None"
  by (simp_all add: page_products_def page_next_def next_url_of_def absolute_url_def shop_site
        suprimentos_fetch shop_soup suprimentos_links)
     (simp add: ustr_def)

lemma shop_discover_run:
  "discover_run (site.truncate (shop raising)) configured_start_urls =
     Some \<lparr>queue = [], visited_listing_pages = {suprimentos},
           product_urls = {ustr ''/down'', ustr ''/p''},
           trace = [Enqueue suprimentos, Fetch suprimentos]\<rparr>"
proof -
  have q: "queue (init_state [suprimentos]) = suprimentos # []"
    and v: "suprimentos \<notin> visited_listing_pages (init_state [suprimentos])"
    by (simp_all add: init_state_def)
  have body: "loop_body (site.truncate (shop raising)) (init_state [suprimentos]) =
     \<lparr>queue = [], visited_listing_pages = {suprimentos},
      product_urls = {ustr ''/down'', ustr ''/p''},
      trace = [Enqueue suprimentos, Fetch suprimentos]\<rparr>"
    by (subst loop_body_visit[OF q v]) (simp add: appended_def suprimentos_page init_state_def)
  show ?thesis
    unfolding discover_run_def configured_start_urls_def
    by (subst frontier_loop.simps, simp add: q body, subst frontier_loop.simps, simp)
qed

lemma shop_sorted:
  "sorted_list_of_set {ustr ''/down'', ustr ''/p''} = [ustr ''/down'', ustr ''/p'']"
  by code_simp

lemma shop_discover:
  "discover_product_urls (site.truncate (shop raising)) configured_start_urls =
     Some [ustr ''/down'', ustr ''/p'']"
  by (simp add: discover_product_urls_def shop_discover_run shop_sorted)

lemma shop_down:
  "fetch_html (shop raising) (ustr ''/down'') = None"
  by (simp add: shop_eval)

lemma shop_main:
  "main (shop []) =
     Some [empty_details (ustr ''/down''),
           \<lparr>url = ustr ''/p'', title = Some (ustr ''Vinil Azul''), short_description = None,
            categories = [ustr ''Vinil''], tags = [], advantages = [ustr ''A'', ustr ''B''],
            technical_info = [(ustr ''Cor'', ustr ''Vermelho''), (ustr ''Tamanho'', ustr ''M'')]\<rparr>]"
  by (simp add: main_def shop_discover scrape_product_details_unfetched[OF shop_returns(5) shop_down] shop_product)

lemma shop_fetch_others:
  "fetch_html (shop raising) (ustr ''/q'') = Some (ustr ''/q'')"
  "fetch_html (shop raising) (ustr ''/r'') = Some (ustr ''/r'')"
  "fetch_html (shop raising) (ustr ''/x'') = Some (ustr ''/x'')"
  by (simp_all add: shop_eval)

lemma shop_no_tab:
  "try_select_one (shop []) (Soup (ustr ''/x'')) (ustr ''div#tab-description'') = Inr None"
  by (simp add: shop_eval)

section \<open>The claims\<close>

subsection \<open>Termination of the traversal\<close>

text \<open>
  C1. The pagination loop of \<open>VinilSulScraper.run\<close> does not exit on every finite set of
  listing pages: its only guard against cycles is \<open>next_url == current_url\<close>. On the two
  catalogue pages \<open>/1\<close> and \<open>/2\<close>, each with one product and a next link to the other, \<open>run\<close>
  never leaves the loop. (\<open>discover_product_urls\<close> does terminate on every finite set of
  reachable listing pages: lemma \<open>discover_run_terminates\<close>.)
\<close>

theorem run_diverges_on_pagination_cycle:
  "run (catalogue_browser catalogue_cycle) (ustr ''/1'') = None"
proof (cases "run (catalogue_browser catalogue_cycle) (ustr ''/1'')")
  case None
  then show ?thesis .
next
  case (Some r)
  then have "run_loop (catalogue_browser catalogue_cycle) (run_init (ustr ''/1'')) = Some r"
    by (simp add: run_def)
  from run_loop_cycle_aux[OF this] show ?thesis by (simp add: run_init_def)
qed

subsection \<open>Fetches and enqueues\<close>

text \<open>
  C2. During one run of \<open>discover_product_urls\<close> no listing-page URL is fetched more than
  once: after any number of iterations of the loop, and in the final state of a run that
  ends, the list of the URLs passed to \<open>fetch_html\<close> has no duplicate. This holds for every
  site and every list of start URLs, duplicate enqueues included.
\<close>

theorem listing_page_fetched_at_most_once:
  "distinct (fetches (trace ((loop_body E ^^ n) (init_state start_urls)))) \<and>
   (\<forall>r. discover_run E start_urls = Some r \<longrightarrow> distinct (fetches (trace r)))"
  using crawl_inv_iterate[of E start_urls n] discover_run_final[of E start_urls]
  by (simp add: crawl_inv_def)

theorem listing_page_fetched_at_most_once_witness:
  "distinct (fetches (trace ((loop_body (listing_site cycle_pages) ^^ 2) (init_state [ustr ''/1''])))) \<and>
   discover_run (listing_site cycle_pages) [ustr ''/1''] =
     Some \<lparr>queue = [], visited_listing_pages = {ustr ''/2'', ustr ''/1''},
           product_urls = {ustr ''/b'', ustr ''/a''},
           trace = [Enqueue (ustr ''/1''), Fetch (ustr ''/1''), Enqueue (ustr ''/2''),
                    Fetch (ustr ''/2'')]\<rparr> \<and>
   distinct (fetches [Enqueue (ustr ''/1''), Fetch (ustr ''/1''), Enqueue (ustr ''/2''),
                      Fetch (ustr ''/2'')])"
  using listing_page_fetched_at_most_once[where E = "listing_site cycle_pages" and n = 2
          and start_urls = "[ustr ''/1'']"]
  by (simp add: cycle_run)

text \<open>
  C9, as stated, fails: a URL can enter the queue more than once. With the start pages \<open>/1\<close>
  and \<open>/2\<close>, whose next links both lead to \<open>/3\<close>, the URL \<open>/3\<close> is appended when \<open>/1\<close> is
  processed and again when \<open>/2\<close> is processed, since it is still unvisited then.
\<close>

theorem url_enqueued_twice:
  "map_option (enqueues \<circ> trace)
     (discover_run (listing_site merging_pages) [ustr ''/1'', ustr ''/2'']) =
     Some [ustr ''/1'', ustr ''/2'', ustr ''/3'', ustr ''/3'']"
  by (simp add: merging_run)

text \<open>
  C9, amended. Throughout a run of \<open>discover_product_urls\<close> no URL enters the queue after
  it has been fetched: the next-page link is checked against the visited pages when it is
  appended. (A URL that waits in the queue unvisited can be appended again.)
\<close>

theorem no_url_enqueued_after_its_fetch:
  "no_enqueue_after_fetch (trace ((loop_body E ^^ n) (init_state start_urls)))"
  using crawl_inv_iterate[of E start_urls n] by (simp add: crawl_inv_def)

subsection \<open>The result of the discovery\<close>

text \<open>
  C3. \<open>discover_product_urls\<close> returns the discovered product URLs as a list that is sorted
  in the lexicographic order of the URL strings and has no duplicate; its elements are the
  product URLs found on the reachable listing pages, so its length is the number of distinct
  product URLs. It returns whenever the set of reachable listing pages is finite. The result
  is a function of the site and the start URLs.
\<close>

theorem discover_product_urls_sorted_distinct:
  "(finite (reachable E start_urls) \<longrightarrow> (\<exists>xs. discover_product_urls E start_urls = Some xs)) \<and>
   (\<forall>xs. discover_product_urls E start_urls = Some xs \<longrightarrow>
      sorted xs \<and> distinct xs \<and>
      set xs = (\<Union>u\<in>reachable E start_urls. page_products E u) \<and>
      length xs = card (\<Union>u\<in>reachable E start_urls. page_products E u))"
proof (intro conjI impI allI)
  assume "finite (reachable E start_urls)"
  from discover_run_terminates[OF this] show "\<exists>xs. discover_product_urls E start_urls = Some xs"
    by (auto simp: discover_product_urls_def)
next
  fix xs assume "discover_product_urls E start_urls = Some xs"
  then obtain r where run: "discover_run E start_urls = Some r"
    and xs: "xs = sorted_list_of_set (product_urls r)"
    by (auto simp: discover_product_urls_def)
  from discover_run_final[OF run] have inv: "crawl_inv E start_urls r" and q: "queue r = []" by simp_all
  have fin: "finite (product_urls r)" by (rule finite_discovered[OF inv])
  have prod: "product_urls r = (\<Union>u\<in>reachable E start_urls. page_products E u)"
    using inv reachable_visited_final[OF inv q] by (simp add: crawl_inv_def)
  show "sorted xs" by (simp add: xs)
  show "distinct xs" by (simp add: xs)
  show "set xs = (\<Union>u\<in>reachable E start_urls. page_products E u)"
    using fin prod by (simp add: xs)
  show "length xs = card (\<Union>u\<in>reachable E start_urls. page_products E u)"
    using fin prod by (simp add: xs)
qed

theorem discover_product_urls_sorted_distinct_witness:
  "finite (reachable (listing_site two_pages) [ustr ''/1'']) \<and>
   discover_product_urls (listing_site two_pages) [ustr ''/1''] =
     Some [ustr ''/a'', ustr ''/b'', ustr ''/c''] \<and>
   sorted [ustr ''/a'', ustr ''/b'', ustr ''/c''] \<and>
   distinct [ustr ''/a'', ustr ''/b'', ustr ''/c''] \<and>
   set [ustr ''/a'', ustr ''/b'', ustr ''/c''] =
     (\<Union>u\<in>reachable (listing_site two_pages) [ustr ''/1'']. page_products (listing_site two_pages) u) \<and>
   length [ustr ''/a'', ustr ''/b'', ustr ''/c''] =
     card (\<Union>u\<in>reachable (listing_site two_pages) [ustr ''/1'']. page_products (listing_site two_pages) u)"
proof -
  have fin: "finite (reachable (listing_site two_pages) [ustr ''/1''])"
    by (simp add: two_pages_reachable)
  from discover_product_urls_sorted_distinct[where E = "listing_site two_pages"
         and start_urls = "[ustr ''/1'']"]
  have "sorted [ustr ''/a'', ustr ''/b'', ustr ''/c''] \<and>
        distinct [ustr ''/a'', ustr ''/b'', ustr ''/c''] \<and>
        set [ustr ''/a'', ustr ''/b'', ustr ''/c''] =
          (\<Union>u\<in>reachable (listing_site two_pages) [ustr ''/1'']. page_products (listing_site two_pages) u) \<and>
        length [ustr ''/a'', ustr ''/b'', ustr ''/c''] =
          card (\<Union>u\<in>reachable (listing_site two_pages) [ustr ''/1'']. page_products (listing_site two_pages) u)"
    unfolding two_pages_discover by blast
  with fin two_pages_discover show ?thesis by blast
qed

subsection \<open>Listing pages without product links\<close>

text \<open>
  C4, as stated, fails for the CSV variant: \<open>run\<close> leaves its loop at the first listing page
  on which \<open>_parse_product_links\<close> finds nothing (\<open>if not product_links: break\<close>). The
  landing page \<open>/1\<close> has no product link and a next link to \<open>/2\<close>; \<open>run\<close> loads \<open>/1\<close> only.
\<close>

theorem run_stops_at_page_without_products:
  "parse_product_links (catalogue_browser catalogue_landing) (ustr ''/1'') = [] \<and>
   get_next_page (catalogue_browser catalogue_landing) (ustr ''/1'') = Some (ustr ''/2'') \<and>
   map_option loaded (run (catalogue_browser catalogue_landing) (ustr ''/1'')) = Some [ustr ''/1'']"
  by (simp add: landing_page landing_run)

text \<open>
  C4, amended. In \<open>discover_product_urls\<close> a listing page without product links that has a
  next-page link adds nothing to the discovered set, and its successor is in the queue or
  among the visited pages after the iteration; when the run ends, the successor has been
  fetched. In \<open>VinilSulScraper.run\<close> a listing page without product links ends the loop: its
  next-page link is not followed.
\<close>

theorem next_page_of_page_without_products:
  "(queue s = u # rest \<and> u \<notin> visited_listing_pages s \<and>
    page_products E u = {} \<and> page_next E u = Some n \<longrightarrow>
      product_urls (loop_body E s) = product_urls s \<and>
      (n \<in> set (queue (loop_body E s)) \<or> n \<in> visited_listing_pages (loop_body E s))) \<and>
   (discover_run E start_urls = Some r \<and> u \<in> set (fetches (trace r)) \<and>
    page_products E u = {} \<and> page_next E u = Some n \<longrightarrow>
      n \<in> set (fetches (trace r))) \<and>
   (current_url t \<noteq> [] \<and> goto B (current_url t) = Some html \<and>
    parse_product_links B html = [] \<longrightarrow>
      run_loop B t = Some (t\<lparr>loaded := loaded t @ [current_url t]\<rparr>))"
proof (intro conjI impI)
  assume a: "queue s = u # rest \<and> u \<notin> visited_listing_pages s \<and>
             page_products E u = {} \<and> page_next E u = Some n"
  then have q: "queue s = u # rest" and v: "u \<notin> visited_listing_pages s" by simp_all
  show "product_urls (loop_body E s) = product_urls s"
    using a by (simp add: loop_body_visit[OF q v])
  show "n \<in> set (queue (loop_body E s)) \<or> n \<in> visited_listing_pages (loop_body E s)"
    using a by (auto simp: loop_body_visit[OF q v] set_appended)
next
  assume a: "discover_run E start_urls = Some r \<and> u \<in> set (fetches (trace r)) \<and>
             page_products E u = {} \<and> page_next E u = Some n"
  then have run: "discover_run E start_urls = Some r" by simp
  from discover_run_final[OF run] a show "n \<in> set (fetches (trace r))"
    by (auto simp: crawl_inv_def)
next
  assume a: "current_url t \<noteq> [] \<and> goto B (current_url t) = Some html \<and>
             parse_product_links B html = []"
  then have "run_iteration B t = Break (t\<lparr>loaded := loaded t @ [current_url t]\<rparr>)"
    by (simp add: run_iteration_no_products)
  with a show "run_loop B t = Some (t\<lparr>loaded := loaded t @ [current_url t]\<rparr>)"
    by (subst run_loop.simps) simp
qed

theorem next_page_of_page_without_products_witness:
  "queue (init_state [ustr ''/1'', ustr ''/2'']) = ustr ''/1'' # [ustr ''/2''] \<and>
   ustr ''/1'' \<notin> visited_listing_pages (init_state [ustr ''/1'', ustr ''/2'']) \<and>
   page_products (listing_site merging_pages) (ustr ''/1'') = {} \<and>
   page_next (listing_site merging_pages) (ustr ''/1'') = Some (ustr ''/3'') \<and>
   product_urls (loop_body (listing_site merging_pages) (init_state [ustr ''/1'', ustr ''/2''])) = {} \<and>
   ustr ''/3'' \<in> set (queue (loop_body (listing_site merging_pages) (init_state [ustr ''/1'', ustr ''/2'']))) \<and>
   map_option (fetches \<circ> trace) (discover_run (listing_site merging_pages) [ustr ''/1'', ustr ''/2'']) =
     Some [ustr ''/1'', ustr ''/2'', ustr ''/3''] \<and>
   current_url (run_init (ustr ''/1'')) \<noteq> [] \<and>
   goto (catalogue_browser catalogue_landing) (current_url (run_init (ustr ''/1''))) = Some (ustr ''/1'') \<and>
   parse_product_links (catalogue_browser catalogue_landing) (ustr ''/1'') = [] \<and>
   run_loop (catalogue_browser catalogue_landing) (run_init (ustr ''/1'')) =
     Some ((run_init (ustr ''/1''))\<lparr>loaded := [ustr ''/1'']\<rparr>)"
proof -
  note inst = next_page_of_page_without_products[where s = "init_state [ustr ''/1'', ustr ''/2'']"
      and u = "ustr ''/1''" and rest = "[ustr ''/2'']" and E = "listing_site merging_pages"
      and n = "ustr ''/3''" and start_urls = "[ustr ''/1'', ustr ''/2'']"
      and r = "\<lparr>queue = [], visited_listing_pages = {ustr ''/3'', ustr ''/2'', ustr ''/1''},
           product_urls = {ustr ''/a''},
           trace = [Enqueue (ustr ''/1''), Enqueue (ustr ''/2''), Fetch (ustr ''/1''),
                    Enqueue (ustr ''/3''), Fetch (ustr ''/2''), Enqueue (ustr ''/3''),
                    Fetch (ustr ''/3'')]\<rparr>"
      and t = "run_init (ustr ''/1'')" and B = "catalogue_browser catalogue_landing"
      and html = "ustr ''/1''"]
  have q: "queue (init_state [ustr ''/1'', ustr ''/2'']) = ustr ''/1'' # [ustr ''/2'']"
    and v: "ustr ''/1'' \<notin> visited_listing_pages (init_state [ustr ''/1'', ustr ''/2''])"
    and i: "product_urls (init_state [ustr ''/1'', ustr ''/2'']) = {}"
    by (simp_all add: init_state_def)
  have c: "current_url (run_init (ustr ''/1'')) = ustr ''/1''"
    and l: "loaded (run_init (ustr ''/1'')) = []"
    and ne: "ustr ''/1'' \<noteq> []"
    by (simp_all add: run_init_def ustr_def)
  have step: "product_urls (loop_body (listing_site merging_pages) (init_state [ustr ''/1'', ustr ''/2''])) = {} \<and>
     (ustr ''/3'' \<in> set (queue (loop_body (listing_site merging_pages) (init_state [ustr ''/1'', ustr ''/2''])))
      \<or> ustr ''/3'' \<in> visited_listing_pages (loop_body (listing_site merging_pages) (init_state [ustr ''/1'', ustr ''/2''])))"
    using inst q v i merging_page_1 by simp
  have nv: "ustr ''/3'' \<notin> visited_listing_pages (loop_body (listing_site merging_pages) (init_state [ustr ''/1'', ustr ''/2'']))"
    by (simp add: init_state_def merging_pages_def site_simps)
  have csv: "run_loop (catalogue_browser catalogue_landing) (run_init (ustr ''/1'')) =
     Some ((run_init (ustr ''/1''))\<lparr>loaded := [ustr ''/1'']\<rparr>)"
    using inst c l ne landing_page by simp
  show ?thesis
    using step nv csv q v c ne landing_page merging_page_1 by (simp add: merging_run)
qed

subsection \<open>Failures inside \<open>scrape_product_details\<close>\<close>

text \<open>
  C5, as stated, fails: \<open>scrape_product_details\<close> can raise to its caller. \<open>fetch_html\<close>
  (line 132) and the constructor \<open>BeautifulSoup\<close> (line 144) stand outside every \<open>try\<close>
  block, and \<open>fetch_html\<close> catches \<open>requests.RequestException\<close> only. In the shop
  \<open>fetch_html\<close> raises on the URL \<open>http://a..b.invalid/\<close>, and so does
  \<open>scrape_product_details\<close>.
\<close>

theorem scrape_product_details_raises_on_bad_url:
  "scrape_product_details (shop []) (ustr ''http://a..b.invalid/'') = Inl LibraryError"
  by (simp add: scrape_product_details_def shop_raises)

text \<open>
  C5, amended. \<open>scrape_product_details\<close> raises to its caller exactly when \<open>fetch_html\<close>
  raises or the constructor \<open>BeautifulSoup\<close> raises on the fetched markup, and \<open>main\<close> puts
  the empty record in its place then; no failure inside a field's extraction reaches the
  caller. When the page is fetched and parsed and none of the five target selectors matches,
  the record has the URL and every other field null or empty. When the page is fetched and
  parsed, every field of the record is the outcome of its own block alone (with the fallback
  value when that block raises), so a failure in one block leaves the other fields as they
  are; for \<open>technical_info\<close> this is the block run with a \<open>desc_tab\<close> of its own, whatever
  the advantages block left in that variable.
\<close>

theorem scrape_product_details_raises_only_outside_blocks:
  "(scrape_product_details L product_url = Inl e \<longleftrightarrow>
      fetch_html_raises L product_url = Some e \<or>
      (fetch_html_raises L product_url = None \<and>
       (\<exists>html. fetch_html L product_url = Some html \<and> BeautifulSoup_raises L html = Some e))) \<and>
   (scrape_product_details L product_url = Inl e \<longrightarrow>
      scrape_all L [product_url] [] = [empty_details product_url]) \<and>
   (fetch_html_raises L product_url = None \<and> fetch_html L product_url = Some html \<and>
    BeautifulSoup_raises L html = None \<and>
    (\<forall>selector\<in>set [ustr ''h2.product_title.entry-title'',
                      ustr ''div.woocommerce-product-details__short-description'',
                      ustr ''span.posted_in'', ustr ''span.tagged_as'',
                      ustr ''div#tab-description''].
        try_select_one L (BeautifulSoup L html) selector = Inr None) \<longrightarrow>
      scrape_product_details L product_url = Inr (empty_details product_url)) \<and>
   (fetch_html_raises L product_url = None \<and> fetch_html L product_url = Some html \<and>
    BeautifulSoup_raises L html = None \<longrightarrow>
      scrape_product_details L product_url =
        Inr \<lparr>url = product_url,
             title = except (title_block L (BeautifulSoup L html)) None,
             short_description = except (short_description_block L (BeautifulSoup L html)) None,
             categories = except (categories_block L (BeautifulSoup L html)) [],
             tags = except (tags_block L (BeautifulSoup L html)) [],
             advantages = except (snd (advantages_block L (BeautifulSoup L html))) [],
             technical_info = except (technical_info_alone L (BeautifulSoup L html)) []\<rparr>)"
proof (intro conjI impI)
  show "scrape_product_details L product_url = Inl e \<longleftrightarrow>
      fetch_html_raises L product_url = Some e \<or>
      (fetch_html_raises L product_url = None \<and>
       (\<exists>html. fetch_html L product_url = Some html \<and> BeautifulSoup_raises L html = Some e))"
    by (rule scrape_product_details_raises)
next
  assume "scrape_product_details L product_url = Inl e"
  then show "scrape_all L [product_url] [] = [empty_details product_url]"
    by simp
next
  assume a: "fetch_html_raises L product_url = None \<and> fetch_html L product_url = Some html \<and>
    BeautifulSoup_raises L html = None \<and>
    (\<forall>selector\<in>set [ustr ''h2.product_title.entry-title'',
                      ustr ''div.woocommerce-product-details__short-description'',
                      ustr ''span.posted_in'', ustr ''span.tagged_as'',
                      ustr ''div#tab-description''].
        try_select_one L (BeautifulSoup L html) selector = Inr None)"
  then have f: "fetch_html_raises L product_url = None" "fetch_html L product_url = Some html"
    "BeautifulSoup_raises L html = None" by simp_all
  from a show "scrape_product_details L product_url = Inr (empty_details product_url)"
    by (simp add: scrape_product_details_fetched[OF f] empty_details_def title_block_def
          short_description_block_def categories_block_def tags_block_def text_block_def
          span_block_def advantages_block_def technical_info_alone_def except_def)
next
  assume "fetch_html_raises L product_url = None \<and> fetch_html L product_url = Some html \<and>
    BeautifulSoup_raises L html = None"
  then have f: "fetch_html_raises L product_url = None" "fetch_html L product_url = Some html"
    "BeautifulSoup_raises L html = None" by simp_all
  show "scrape_product_details L product_url =
        Inr \<lparr>url = product_url,
             title = except (title_block L (BeautifulSoup L html)) None,
             short_description = except (short_description_block L (BeautifulSoup L html)) None,
             categories = except (categories_block L (BeautifulSoup L html)) [],
             tags = except (tags_block L (BeautifulSoup L html)) [],
             advantages = except (snd (advantages_block L (BeautifulSoup L html))) [],
             technical_info = except (technical_info_alone L (BeautifulSoup L html)) []\<rparr>"
    by (rule scrape_product_details_fetched[OF f])
qed

theorem scrape_product_details_raises_only_outside_blocks_witness:
  "fetch_html (shop []) (ustr ''/broken'') = Some (ustr ''/broken'') \<and>
   BeautifulSoup_raises (shop []) (ustr ''/broken'') = Some LibraryError \<and>
   scrape_product_details (shop []) (ustr ''/broken'') = Inl LibraryError \<and>
   scrape_all (shop []) [ustr ''/broken''] [] = [empty_details (ustr ''/broken'')] \<and>
   fetch_html (shop []) (ustr ''/x'') = Some (ustr ''/x'') \<and>
   map (try_select_one (shop []) (BeautifulSoup (shop []) (ustr ''/x'')))
     [ustr ''h2.product_title.entry-title'',
      ustr ''div.woocommerce-product-details__short-description'',
      ustr ''span.posted_in'', ustr ''span.tagged_as'', ustr ''div#tab-description''] =
     [Inr None, Inr None, Inr None, Inr None, Inr None] \<and>
   scrape_product_details (shop []) (ustr ''/x'') = Inr (empty_details (ustr ''/x'')) \<and>
   fetch_html (shop [ustr ''h2.product_title.entry-title'']) (ustr ''/p'') = Some (ustr ''/p'') \<and>
   title_block (shop [ustr ''h2.product_title.entry-title''])
     (BeautifulSoup (shop [ustr ''h2.product_title.entry-title'']) (ustr ''/p'')) = Inl LibraryError \<and>
   scrape_product_details (shop [ustr ''h2.product_title.entry-title'']) (ustr ''/p'') =
     Inr \<lparr>url = ustr ''/p'', title = None, short_description = None,
          categories = [ustr ''Vinil''], tags = [], advantages = [ustr ''A'', ustr ''B''],
          technical_info = [(ustr ''Cor'', ustr ''Vermelho''), (ustr ''Tamanho'', ustr ''M'')]\<rparr>"
proof -
  note broken = scrape_product_details_raises_only_outside_blocks[where L = "shop []"
      and product_url = "ustr ''/broken''" and e = LibraryError]
  have b: "scrape_product_details (shop []) (ustr ''/broken'') = Inl LibraryError"
    using broken shop_raises(2,3)[of "[]"] shop_returns(6)[of "[]"] by blast
  have c: "scrape_all (shop []) [ustr ''/broken''] [] = [empty_details (ustr ''/broken'')]"
    using broken b by blast
  have f: "fetch_html (shop []) (ustr ''/x'') = Some (ustr ''/x'')"
    by (simp add: shop_eval)
  have n: "\<forall>selector\<in>set [ustr ''h2.product_title.entry-title'',
                      ustr ''div.woocommerce-product-details__short-description'',
                      ustr ''span.posted_in'', ustr ''span.tagged_as'',
                      ustr ''div#tab-description''].
        try_select_one (shop []) (BeautifulSoup (shop []) (ustr ''/x'')) selector = Inr None"
    by (simp add: shop_eval)
  from scrape_product_details_raises_only_outside_blocks[where L = "shop []"
      and product_url = "ustr ''/x''" and html = "ustr ''/x''"]
    f n shop_returns(4)[of "[]"] shop_returns(10)[of "[]"]
  have x: "scrape_product_details (shop []) (ustr ''/x'') = Inr (empty_details (ustr ''/x''))"
    by blast
  show ?thesis
    using b c x f n shop_raises(2,3)[of "[]"]
    by (simp add: shop_fetch_p shop_soup shop_blocks shop_product_raising)
qed

subsection \<open>The technical information\<close>

text \<open>
  C6. On a product page that is fetched and parsed, whose description tab has a paragraph
  with a bold lead-in that contains \<open>informa\<ccedil>\<otilde>es t\<eacute>cnicas\<close> (in any case), and whose inner
  markup is the lead-in followed by the lines \<open>Cor: Azul\<close>, \<open>Tamanho: M\<close> and
  \<open>Cor: Vermelho\<close>, each behind a line break, \<open>technical_info\<close> is
  \<open>{"Cor": "Vermelho", "Tamanho": "M"}\<close>. \<open>decode_contents\<close> writes the lead-in as
  \<open><strong>Informa\<ccedil>\<otilde>es T\<eacute>cnicas:</strong>\<close> and a line break as \<open><br/>\<close>; the result is
  the same when the line breaks are written \<open><br />\<close> or \<open><br>\<close>. The text of the lead-in
  segment is \<open>Informa\<ccedil>\<otilde>es T\<eacute>cnicas:\<close>, the other segments are plain text. The second part
  is the rule for one segment: a segment whose text is empty, starts with the marker or has
  no colon changes nothing; any other is cut at its first colon, both sides are stripped,
  and a non-empty key is assigned its value, replacing an earlier value of that key.
\<close>

theorem technical_info_of_example_paragraph:
  assumes "fetch_html_raises L product_url = None"
      and "fetch_html L product_url = Some html"
      and "BeautifulSoup_raises L html = None"
      and "try_select_one L (BeautifulSoup L html) (ustr ''div#tab-description'') = Inr (Some desc_tab)"
      and "try_select L desc_tab (ustr ''p'') = Inr (before @ target_p # after)"
      and "\<forall>p\<in>set before. try_find L p (ustr ''strong'') = Inr None \<or>
             (\<exists>strong t. try_find L p (ustr ''strong'') = Inr (Some strong) \<and>
                try_get_text L strong (ustr '' '') = Inr t \<and>
                \<not> contains (lower t) informacoes_tecnicas)"
      and "try_find L target_p (ustr ''strong'') = Inr (Some strong)"
      and "try_get_text L strong (ustr '' '') = Inr lead_in"
      and "contains (lower lead_in) informacoes_tecnicas"
      and "try_decode_contents L target_p = Inr (paragraph_with_breaks br)"
      and "br \<in> set [ustr ''<br/>'', ustr ''<br />'', ustr ''<br>'']"
      and "try_get_text L (BeautifulSoup L lead_in_markup) (ustr '' '') = Inr title_line"
      and "\<forall>segment\<in>set [ustr ''Cor: Azul'', ustr ''Tamanho: M'', ustr ''Cor: Vermelho''].
             try_get_text L (BeautifulSoup L segment) (ustr '' '') = Inr segment"
  shows "(\<exists>r. scrape_product_details L product_url = Inr r \<and>
              technical_info r = [(ustr ''Cor'', ustr ''Vermelho''), (ustr ''Tamanho'', ustr ''M'')]) \<and>
         (part \<noteq> [] \<and> try_get_text L (BeautifulSoup L part) (ustr '' '') = Inr part_text \<longrightarrow>
            parse_parts L (part # parts) info =
              parse_parts L parts
                (if part_text \<noteq> [] \<and> \<not> startswith (lower part_text) informacoes_tecnicas \<and>
                    58 \<in> set part_text \<and> strip (takeWhile (\<lambda>x. x \<noteq> 58) part_text) \<noteq> []
                 then AList.update (strip (takeWhile (\<lambda>x. x \<noteq> 58) part_text))
                        (strip (tl (dropWhile (\<lambda>x. x \<noteq> 58) part_text))) info
                 else info)) \<and>
         map_of (AList.update key val info) key = Some val"
proof (intro conjI impI)
  have "technical_info_of_tab L desc_tab =
          Inr [(ustr ''Cor'', ustr ''Vermelho''), (ustr ''Tamanho'', ustr ''M'')]"
    by (rule technical_info_of_tab_example[OF assms(5-13)])
  with technical_info_of_details[OF assms(1-4)]
  show "\<exists>r. scrape_product_details L product_url = Inr r \<and>
              technical_info r = [(ustr ''Cor'', ustr ''Vermelho''), (ustr ''Tamanho'', ustr ''M'')]"
    by (simp add: except_def)
next
  assume "part \<noteq> [] \<and> try_get_text L (BeautifulSoup L part) (ustr '' '') = Inr part_text"
  then have a: "part \<noteq> []"
    and b: "try_get_text L (BeautifulSoup L part) (ustr '' '') = Inr part_text" by simp_all
  show "parse_parts L (part # parts) info =
              parse_parts L parts
                (if part_text \<noteq> [] \<and> \<not> startswith (lower part_text) informacoes_tecnicas \<and>
                    58 \<in> set part_text \<and> strip (takeWhile (\<lambda>x. x \<noteq> 58) part_text) \<noteq> []
                 then AList.update (strip (takeWhile (\<lambda>x. x \<noteq> 58) part_text))
                        (strip (tl (dropWhile (\<lambda>x. x \<noteq> 58) part_text))) info
                 else info)"
    by (rule parse_parts_step[OF a b])
next
  show "map_of (AList.update key val info) key = Some val"
    by (simp add: update_conv')
qed

theorem technical_info_of_example_paragraph_witness:
  "scrape_product_details (shop []) (ustr ''/p'') =
     Inr \<lparr>url = ustr ''/p'', title = Some (ustr ''Vinil Azul''), short_description = None,
          categories = [ustr ''Vinil''], tags = [], advantages = [ustr ''A'', ustr ''B''],
          technical_info = [(ustr ''Cor'', ustr ''Vermelho''), (ustr ''Tamanho'', ustr ''M'')]\<rparr> \<and>
   try_find (shop []) Paragraph (ustr ''strong'') = Inr (Some Lead_In) \<and>
   try_decode_contents (shop []) Paragraph = Inr (paragraph_with_breaks (ustr ''<br/>'')) \<and>
   try_get_text (shop []) (BeautifulSoup (shop []) lead_in_markup) (ustr '' '') = Inr title_line \<and>
   parse_parts (shop []) [ustr ''Cor: Azul''] [(ustr ''Cor'', ustr ''Vermelho'')] =
     Inr [(ustr ''Cor'', ustr ''Azul'')]"
proof -
  have pre: "\<forall>p\<in>set []. try_find (shop []) p (ustr ''strong'') = Inr None \<or>
             (\<exists>strong t. try_find (shop []) p (ustr ''strong'') = Inr (Some strong) \<and>
                try_get_text (shop []) strong (ustr '' '') = Inr t \<and>
                \<not> contains (lower t) informacoes_tecnicas)"
    by simp
  have lead: "try_get_text (shop []) Lead_In (ustr '' '') = Inr title_line"
    by (simp add: shop_text)
  have br: "ustr ''<br/>'' \<in> set [ustr ''<br/>'', ustr ''<br />'', ustr ''<br>'']"
    by simp
  have seg: "ustr ''Cor: Azul'' \<noteq> [] \<and>
     try_get_text (shop []) (BeautifulSoup (shop []) (ustr ''Cor: Azul'')) (ustr '' '') =
       Inr (ustr ''Cor: Azul'')"
    using shop_segments[of "[]"] cor_azul_step by simp
  note inst = technical_info_of_example_paragraph[OF shop_returns(1)[of "[]"] shop_fetch_p[of "[]"]
      shop_returns(7)[of "[]"]
      shop_tab(1)[folded shop_soup[of "[]"]] shop_select(4)[of "[]"] pre shop_find(1)[of "[]"] lead
      shop_headings(4) shop_paragraph[of "[]"] br shop_lead_in[of "[]"] shop_segments[of "[]"],
      where part = "ustr ''Cor: Azul''" and part_text = "ustr ''Cor: Azul''" and parts = "[]"
      and info = "[(ustr ''Cor'', ustr ''Vermelho'')]"]
  have step: "parse_parts (shop []) [ustr ''Cor: Azul''] [(ustr ''Cor'', ustr ''Vermelho'')] =
     Inr [(ustr ''Cor'', ustr ''Azul'')]"
    using inst seg cor_azul_step by simp
  show ?thesis
    using inst step
    by (simp add: shop_product shop_find shop_paragraph shop_lead_in)
qed

text \<open>
  C10. Every key of the \<open>technical_info\<close> dictionary returned by \<open>scrape_product_details\<close> is
  non-empty and stripped. A segment whose text before the first colon is empty or blank,
  such as \<open>: value\<close>, adds no entry.
\<close>

theorem technical_info_keys_nonempty:
  "(\<forall>r. scrape_product_details L product_url = Inr r \<longrightarrow>
        (\<forall>k\<in>set (map fst (technical_info r)). k \<noteq> [] \<and> strip k = k)) \<and>
   (part \<noteq> [] \<and> try_get_text L (BeautifulSoup L part) (ustr '' '') = Inr (ws @ 58 # v) \<and>
    (\<forall>c\<in>set ws. isspace c) \<longrightarrow>
      parse_parts L (part # parts) info = parse_parts L parts info)"
proof (intro conjI impI allI)
  fix r assume "scrape_product_details L product_url = Inr r"
  from scrape_product_details_clean_keys[OF this]
  show "\<forall>k\<in>set (map fst (technical_info r)). k \<noteq> [] \<and> strip k = k"
    by (simp add: clean_keys_def list_all_iff)
next
  assume "part \<noteq> [] \<and> try_get_text L (BeautifulSoup L part) (ustr '' '') = Inr (ws @ 58 # v) \<and>
    (\<forall>c\<in>set ws. isspace c)"
  then have a: "part \<noteq> []"
    and b: "try_get_text L (BeautifulSoup L part) (ustr '' '') = Inr (ws @ 58 # v)"
    and c: "\<forall>c\<in>set ws. isspace c" by simp_all
  show "parse_parts L (part # parts) info = parse_parts L parts info"
    by (rule parse_parts_blank_key[OF a b c])
qed

theorem technical_info_keys_nonempty_witness:
  "scrape_product_details (shop []) (ustr ''/p'') =
     Inr \<lparr>url = ustr ''/p'', title = Some (ustr ''Vinil Azul''), short_description = None,
          categories = [ustr ''Vinil''], tags = [], advantages = [ustr ''A'', ustr ''B''],
          technical_info = [(ustr ''Cor'', ustr ''Vermelho''), (ustr ''Tamanho'', ustr ''M'')]\<rparr> \<and>
   [] \<notin> set [ustr ''Cor'', ustr ''Tamanho''] \<and>
   map strip [ustr ''Cor'', ustr ''Tamanho''] = [ustr ''Cor'', ustr ''Tamanho''] \<and>
   ustr '' : x'' \<noteq> [] \<and>
   try_get_text (shop []) (BeautifulSoup (shop []) (ustr '' : x'')) (ustr '' '') =
     Inr ([] @ 58 # ustr '' x'') \<and>
   parse_parts (shop []) [ustr '' : x''] [] = Inr []"
proof -
  have t: "try_get_text (shop []) (BeautifulSoup (shop []) (ustr '' : x'')) (ustr '' '') =
     Inr ([] @ 58 # ustr '' x'')"
    by (simp add: shop_text shop_soup fragment_text_def str_eval)
  have ne: "ustr '' : x'' \<noteq> []" by (simp add: ustr_def)
  have k: "[] \<notin> set [ustr ''Cor'', ustr ''Tamanho''] \<and>
     map strip [ustr ''Cor'', ustr ''Tamanho''] = [ustr ''Cor'', ustr ''Tamanho'']"
    by (simp add: str_eval)
  from technical_info_keys_nonempty[where L = "shop []" and product_url = "ustr ''/p''"
      and part = "ustr '' : x''" and ws = "[]" and v = "ustr '' x''" and parts = "[]" and info = "[]"]
    t ne
  have p: "parse_parts (shop []) [ustr '' : x''] [] = Inr []" by simp
  from k p t ne shop_product show ?thesis by blast
qed

subsection \<open>The advantages\<close>

text \<open>
  C7. On a product page that is fetched and parsed, whose description tab has an \<open>h2\<close> whose text contains
  \<open>vantagens\<close> in any case (the first such heading), followed in document order by a list
  with the items \<open>A\<close> and \<open>B\<close>, \<open>advantages\<close> is \<open>["A", "B"]\<close>; in general it has one entry
  per list item with a non-empty text, in document order. When no list follows that
  heading, when no heading of the tab contains the marker, or when the page has no
  description tab, \<open>advantages\<close> is empty.
\<close>

theorem advantages_after_heading:
  assumes "fetch_html_raises L product_url = None"
      and "fetch_html L product_url = Some html"
      and "BeautifulSoup_raises L html = None"
  shows
  "(try_select_one L (BeautifulSoup L html) (ustr ''div#tab-description'') = Inr (Some desc_tab) \<and>
    try_select L desc_tab (ustr ''h2'') = Inr (before @ target_heading # after) \<and>
    (\<forall>h\<in>set before. \<exists>t. try_get_text L h (ustr '' '') = Inr t \<and>
        \<not> contains (lower t) (ustr ''vantagens'')) \<and>
    try_get_text L target_heading (ustr '' '') = Inr heading_text \<and>
    contains (lower heading_text) (ustr ''vantagens'') \<and>
    try_find_next L target_heading (ustr ''ul'') = Inr (Some ul) \<and>
    try_select L ul (ustr ''li'') = Inr [li_a, li_b] \<and>
    try_get_text L li_a (ustr '' '') = Inr (ustr ''A'') \<and>
    try_get_text L li_b (ustr '' '') = Inr (ustr ''B'') \<longrightarrow>
      (\<exists>r. scrape_product_details L product_url = Inr r \<and>
           advantages r = [ustr ''A'', ustr ''B''])) \<and>
   (try_select_one L (BeautifulSoup L html) (ustr ''div#tab-description'') = Inr (Some desc_tab) \<and>
    try_select L desc_tab (ustr ''h2'') = Inr (before @ target_heading # after) \<and>
    (\<forall>h\<in>set before. \<exists>t. try_get_text L h (ustr '' '') = Inr t \<and>
        \<not> contains (lower t) (ustr ''vantagens'')) \<and>
    try_get_text L target_heading (ustr '' '') = Inr heading_text \<and>
    contains (lower heading_text) (ustr ''vantagens'') \<and>
    try_find_next L target_heading (ustr ''ul'') = Inr (Some ul) \<and>
    try_select L ul (ustr ''li'') = Inr lis \<and>
    map (\<lambda>li. try_get_text L li (ustr '' '')) lis = map Inr texts \<longrightarrow>
      (\<exists>r. scrape_product_details L product_url = Inr r \<and>
           advantages r = filter (\<lambda>t. t \<noteq> []) texts)) \<and>
   (try_select_one L (BeautifulSoup L html) (ustr ''div#tab-description'') = Inr (Some desc_tab) \<and>
    try_select L desc_tab (ustr ''h2'') = Inr (before @ target_heading # after) \<and>
    (\<forall>h\<in>set before. \<exists>t. try_get_text L h (ustr '' '') = Inr t \<and>
        \<not> contains (lower t) (ustr ''vantagens'')) \<and>
    try_get_text L target_heading (ustr '' '') = Inr heading_text \<and>
    contains (lower heading_text) (ustr ''vantagens'') \<and>
    try_find_next L target_heading (ustr ''ul'') = Inr None \<longrightarrow>
      (\<exists>r. scrape_product_details L product_url = Inr r \<and> advantages r = [])) \<and>
   (try_select_one L (BeautifulSoup L html) (ustr ''div#tab-description'') = Inr (Some desc_tab) \<and>
    try_select L desc_tab (ustr ''h2'') = Inr h2_list \<and>
    (\<forall>h\<in>set h2_list. \<exists>t. try_get_text L h (ustr '' '') = Inr t \<and>
        \<not> contains (lower t) (ustr ''vantagens'')) \<longrightarrow>
      (\<exists>r. scrape_product_details L product_url = Inr r \<and> advantages r = [])) \<and>
   (try_select_one L (BeautifulSoup L html) (ustr ''div#tab-description'') = Inr None \<longrightarrow>
      (\<exists>r. scrape_product_details L product_url = Inr r \<and> advantages r = []))"
proof (intro conjI impI)
  assume a: "try_select_one L (BeautifulSoup L html) (ustr ''div#tab-description'') = Inr (Some desc_tab) \<and>
    try_select L desc_tab (ustr ''h2'') = Inr (before @ target_heading # after) \<and>
    (\<forall>h\<in>set before. \<exists>t. try_get_text L h (ustr '' '') = Inr t \<and>
        \<not> contains (lower t) (ustr ''vantagens'')) \<and>
    try_get_text L target_heading (ustr '' '') = Inr heading_text \<and>
    contains (lower heading_text) (ustr ''vantagens'') \<and>
    try_find_next L target_heading (ustr ''ul'') = Inr (Some ul) \<and>
    try_select L ul (ustr ''li'') = Inr [li_a, li_b] \<and>
    try_get_text L li_a (ustr '' '') = Inr (ustr ''A'') \<and>
    try_get_text L li_b (ustr '' '') = Inr (ustr ''B'')"
  then have texts: "map (\<lambda>li. try_get_text L li (ustr '' '')) [li_a, li_b] =
      map Inr [ustr ''A'', ustr ''B'']" by simp
  have "advantages_of_tab L desc_tab = Inr (filter (\<lambda>t. t \<noteq> []) [ustr ''A'', ustr ''B''])"
    by (rule advantages_of_tab_found[OF _ _ _ _ _ _ texts]) (use a in blast)+
  then have "advantages_of_tab L desc_tab = Inr [ustr ''A'', ustr ''B'']"
    by (simp add: ustr_def)
  with advantages_of_details[OF assms, of desc_tab] a
  show "\<exists>r. scrape_product_details L product_url = Inr r \<and> advantages r = [ustr ''A'', ustr ''B'']"
    by (simp add: except_def)
next
  assume a: "try_select_one L (BeautifulSoup L html) (ustr ''div#tab-description'') = Inr (Some desc_tab) \<and>
    try_select L desc_tab (ustr ''h2'') = Inr (before @ target_heading # after) \<and>
    (\<forall>h\<in>set before. \<exists>t. try_get_text L h (ustr '' '') = Inr t \<and>
        \<not> contains (lower t) (ustr ''vantagens'')) \<and>
    try_get_text L target_heading (ustr '' '') = Inr heading_text \<and>
    contains (lower heading_text) (ustr ''vantagens'') \<and>
    try_find_next L target_heading (ustr ''ul'') = Inr (Some ul) \<and>
    try_select L ul (ustr ''li'') = Inr lis \<and>
    map (\<lambda>li. try_get_text L li (ustr '' '')) lis = map Inr texts"
  have "advantages_of_tab L desc_tab = Inr (filter (\<lambda>t. t \<noteq> []) texts)"
    by (rule advantages_of_tab_found) (use a in blast)+
  with advantages_of_details[OF assms, of desc_tab] a
  show "\<exists>r. scrape_product_details L product_url = Inr r \<and>
           advantages r = filter (\<lambda>t. t \<noteq> []) texts"
    by (simp add: except_def)
next
  assume a: "try_select_one L (BeautifulSoup L html) (ustr ''div#tab-description'') = Inr (Some desc_tab) \<and>
    try_select L desc_tab (ustr ''h2'') = Inr (before @ target_heading # after) \<and>
    (\<forall>h\<in>set before. \<exists>t. try_get_text L h (ustr '' '') = Inr t \<and>
        \<not> contains (lower t) (ustr ''vantagens'')) \<and>
    try_get_text L target_heading (ustr '' '') = Inr heading_text \<and>
    contains (lower heading_text) (ustr ''vantagens'') \<and>
    try_find_next L target_heading (ustr ''ul'') = Inr None"
  have "advantages_of_tab L desc_tab = Inr []"
    by (rule advantages_of_tab_no_list) (use a in blast)+
  with advantages_of_details[OF assms, of desc_tab] a
  show "\<exists>r. scrape_product_details L product_url = Inr r \<and> advantages r = []"
    by (simp add: except_def)
next
  assume a: "try_select_one L (BeautifulSoup L html) (ustr ''div#tab-description'') = Inr (Some desc_tab) \<and>
    try_select L desc_tab (ustr ''h2'') = Inr h2_list \<and>
    (\<forall>h\<in>set h2_list. \<exists>t. try_get_text L h (ustr '' '') = Inr t \<and>
        \<not> contains (lower t) (ustr ''vantagens''))"
  have "advantages_of_tab L desc_tab = Inr []"
    by (rule advantages_of_tab_no_heading) (use a in blast)+
  with advantages_of_details[OF assms, of desc_tab] a
  show "\<exists>r. scrape_product_details L product_url = Inr r \<and> advantages r = []"
    by (simp add: except_def)
next
  assume "try_select_one L (BeautifulSoup L html) (ustr ''div#tab-description'') = Inr None"
  then show "\<exists>r. scrape_product_details L product_url = Inr r \<and> advantages r = []"
    by (simp add: scrape_product_details_fetched[OF assms] advantages_block_def except_def)
qed

theorem advantages_after_heading_witness:
  "scrape_product_details (shop []) (ustr ''/p'') =
     Inr \<lparr>url = ustr ''/p'', title = Some (ustr ''Vinil Azul''), short_description = None,
          categories = [ustr ''Vinil''], tags = [], advantages = [ustr ''A'', ustr ''B''],
          technical_info = [(ustr ''Cor'', ustr ''Vermelho''), (ustr ''Tamanho'', ustr ''M'')]\<rparr> \<and>
   try_select (shop []) (Description_Tab (ustr ''/p'')) (ustr ''h2'') =
     Inr ([Heading (ustr ''Sobre'')] @ Heading (ustr ''VANTAGENS'') # []) \<and>
   try_find_next (shop []) (Heading (ustr ''VANTAGENS'')) (ustr ''ul'') = Inr (Some Item_List) \<and>
   try_select (shop []) Item_List (ustr ''li'') = Inr [Item (ustr ''A''), Item (ustr ''B'')] \<and>
   try_find_next (shop []) (Heading (ustr ''Vantagens'')) (ustr ''ul'') = Inr None \<and>
   (\<exists>r. scrape_product_details (shop []) (ustr ''/q'') = Inr r \<and> advantages r = []) \<and>
   try_select (shop []) (Description_Tab (ustr ''/r'')) (ustr ''h2'') = Inr [Heading (ustr ''Sobre'')] \<and>
   (\<exists>r. scrape_product_details (shop []) (ustr ''/r'') = Inr r \<and> advantages r = []) \<and>
   try_select_one (shop []) (BeautifulSoup (shop []) (ustr ''/x'')) (ustr ''div#tab-description'') =
     Inr None \<and>
   (\<exists>r. scrape_product_details (shop []) (ustr ''/x'') = Inr r \<and> advantages r = [])"
proof -
  have sobre: "\<forall>h\<in>set [Heading (ustr ''Sobre'')].
      \<exists>t. try_get_text (shop []) h (ustr '' '') = Inr t \<and> \<not> contains (lower t) (ustr ''vantagens'')"
    by (simp add: shop_text shop_headings(1))
  have none: "\<forall>h\<in>set []. \<exists>t. try_get_text (shop []) h (ustr '' '') = Inr t \<and>
      \<not> contains (lower t) (ustr ''vantagens'')"
    by simp
  have texts: "try_get_text (shop []) (Heading (ustr ''VANTAGENS'')) (ustr '' '') = Inr (ustr ''VANTAGENS'')"
    "try_get_text (shop []) (Heading (ustr ''Vantagens'')) (ustr '' '') = Inr (ustr ''Vantagens'')"
    "try_get_text (shop []) (Item (ustr ''A'')) (ustr '' '') = Inr (ustr ''A'')"
    "try_get_text (shop []) (Item (ustr ''B'')) (ustr '' '') = Inr (ustr ''B'')"
    by (simp_all add: shop_text)
  note p = advantages_after_heading[OF shop_returns(1)[of "[]"] shop_fetch_p[of "[]"]
      shop_returns(7)[of "[]"],
      where desc_tab = "Description_Tab (ustr ''/p'')" and before = "[Heading (ustr ''Sobre'')]"
      and target_heading = "Heading (ustr ''VANTAGENS'')" and after = "[]"
      and heading_text = "ustr ''VANTAGENS''" and ul = Item_List
      and li_a = "Item (ustr ''A'')" and li_b = "Item (ustr ''B'')"]
  have "\<exists>r. scrape_product_details (shop []) (ustr ''/p'') = Inr r \<and>
            advantages r = [ustr ''A'', ustr ''B'']"
    using p sobre texts shop_tab(1) shop_select(1)[of "[]"] shop_headings(2) shop_find(2)[of "[]"]
      shop_select(5)[of "[]"]
    by (simp add: shop_soup)
  note q = advantages_after_heading[OF shop_returns(2)[of "[]"] shop_fetch_others(1)[of "[]"]
      shop_returns(8)[of "[]"],
      where desc_tab = "Description_Tab (ustr ''/q'')" and before = "[]"
      and target_heading = "Heading (ustr ''Vantagens'')" and after = "[]"
      and heading_text = "ustr ''Vantagens''"]
  have q': "\<exists>r. scrape_product_details (shop []) (ustr ''/q'') = Inr r \<and> advantages r = []"
    using q none texts shop_tab(2) shop_select(2)[of "[]"] shop_headings(3) shop_find(3)[of "[]"]
    by (simp add: shop_soup)
  note r = advantages_after_heading[OF shop_returns(3)[of "[]"] shop_fetch_others(2)[of "[]"]
      shop_returns(9)[of "[]"],
      where desc_tab = "Description_Tab (ustr ''/r'')" and h2_list = "[Heading (ustr ''Sobre'')]"]
  have r': "\<exists>r. scrape_product_details (shop []) (ustr ''/r'') = Inr r \<and> advantages r = []"
    using r sobre shop_tab(3) shop_select(3)[of "[]"]
    by (simp add: shop_soup)
  note x = advantages_after_heading[OF shop_returns(4)[of "[]"] shop_fetch_others(3)[of "[]"]
      shop_returns(10)[of "[]"]]
  have x': "\<exists>r. scrape_product_details (shop []) (ustr ''/x'') = Inr r \<and> advantages r = []"
    using x shop_no_tab by (simp add: shop_soup)
  show ?thesis
    using q' r' x' shop_no_tab
    by (simp add: shop_product shop_select shop_find shop_soup)
qed

subsection \<open>Products whose page cannot be fetched\<close>

text \<open>
  C8. The loop of \<open>main\<close> appends exactly one record for every product URL, in order, with
  that URL in it. For a URL on which \<open>fetch_html\<close> returns \<open>None\<close> the record is the empty
  one. Every record is the outcome of \<open>scrape_product_details\<close> on its own URL, whatever
  happened to the URLs before it. The list \<open>main\<close> hands to the sink is the result of this
  loop on the discovered product URLs.
\<close>

theorem failed_fetch_gives_one_empty_record:
  "length (scrape_all L urls []) = length urls \<and>
   (\<forall>i<length urls.
      url (scrape_all L urls [] ! i) = urls ! i \<and>
      (fetch_html L (urls ! i) = None \<longrightarrow> scrape_all L urls [] ! i = empty_details (urls ! i)) \<and>
      scrape_all L urls [] ! i =
        except (scrape_product_details L (urls ! i)) (empty_details (urls ! i))) \<and>
   (\<forall>results. main L = Some results \<longrightarrow>
      (\<exists>found. discover_product_urls (site.truncate L) configured_start_urls = Some found \<and>
               results = scrape_all L found []))"
proof (intro conjI allI impI)
  show "length (scrape_all L urls []) = length urls"
    by (simp add: scrape_all_append)
next
  fix i assume "i < length urls"
  then show "url (scrape_all L urls [] ! i) = urls ! i"
    by (simp add: scrape_all_append url_of_details)
next
  fix i assume "i < length urls" and "fetch_html L (urls ! i) = None"
  then show "scrape_all L urls [] ! i = empty_details (urls ! i)"
    by (simp add: scrape_all_append except_unfetched)
next
  fix i assume "i < length urls"
  then show "scrape_all L urls [] ! i =
        except (scrape_product_details L (urls ! i)) (empty_details (urls ! i))"
    by (simp add: scrape_all_append)
next
  fix results assume "main L = Some results"
  then show "\<exists>found. discover_product_urls (site.truncate L) configured_start_urls = Some found \<and>
               results = scrape_all L found []"
    by (auto simp: main_def split: option.splits)
qed

theorem failed_fetch_gives_one_empty_record_witness:
  "fetch_html (shop []) ([ustr ''/down'', ustr ''/p''] ! 0) = None \<and>
   scrape_all (shop []) [ustr ''/down'', ustr ''/p''] [] ! 0 = empty_details (ustr ''/down'') \<and>
   length (scrape_all (shop []) [ustr ''/down'', ustr ''/p''] []) = 2 \<and>
   discover_product_urls (site.truncate (shop [])) configured_start_urls =
     Some [ustr ''/down'', ustr ''/p''] \<and>
   main (shop []) =
     Some [empty_details (ustr ''/down''),
           \<lparr>url = ustr ''/p'', title = Some (ustr ''Vinil Azul''), short_description = None,
            categories = [ustr ''Vinil''], tags = [], advantages = [ustr ''A'', ustr ''B''],
            technical_info = [(ustr ''Cor'', ustr ''Vermelho''), (ustr ''Tamanho'', ustr ''M'')]\<rparr>]"
proof -
  note inst = failed_fetch_gives_one_empty_record[where L = "shop []"
      and urls = "[ustr ''/down'', ustr ''/p'']"]
  have d: "fetch_html (shop []) ([ustr ''/down'', ustr ''/p''] ! 0) = None"
    by (simp add: shop_down)
  from inst have len: "length (scrape_all (shop []) [ustr ''/down'', ustr ''/p''] []) = 2"
    by simp
  from inst d have first: "scrape_all (shop []) [ustr ''/down'', ustr ''/p''] [] ! 0 =
      empty_details (ustr ''/down'')"
    by (simp del: scrape_all.simps)
  from d len first shop_discover[of "[]"] shop_main show ?thesis by blast
qed


end
